theory Spec2Isabelle
  imports Complex_Main "HOL-Library.Log_Nat"
begin

section \<open>The idle-game core: data model\<close>

text \<open>
  The game state manager of the extension (\<^verbatim>\<open>GameStateManager\<close>) is embedded
  with explicit state passing. Every method becomes a function from the manager to the
  manager it leaves behind.

  Numbers. A JavaScript \<^verbatim>\<open>number\<close> is a double. The operations of the manager are
  embedded over the reals (\<^typ>\<open>real\<close>): the arithmetic of the source is read exactly, so
  \<^verbatim>\<open>0.1\<close> is \<open>1/10\<close> and \<^verbatim>\<open>Math.floor\<close> is the floor of the exact value.
  This is the arithmetic of the source wherever the exact result of every operation is
  itself a double, as it is on integers of magnitude below \<open>2^53\<close>; it is not in
  general, neither for large amounts nor for the bonus of an owned equipment slot, which
  multiplies by \<^verbatim>\<open>0.1\<close>. Where a property depends on the rounding, the operation has a
  second embedding, with the suffix \<open>_double\<close>, in which every arithmetic operation of
  the source is followed by the rounding to the nearest double (section
  ``The arithmetic of doubles''), and the property is stated of that one, with the range
  in which the arithmetic is exact as a hypothesis.

  Randomness. \<^verbatim>\<open>Math.random()\<close> is an input: each function that draws takes the
  drawn values as arguments, in the order of the draws.
\<close>

type_synonym number = real

definition Math_floor :: "number \<Rightarrow> number" where
  "Math_floor x = of_int \<lfloor>x\<rfloor>"

record Character =
  name :: string
  level :: number
  experience :: number
  experienceToNext :: number

record Resources =
  linesOfCode :: number
  bugFragments :: number

record Stats =
  handSpeed :: number
  algorithm :: number
  iteration :: number

record UpgradeCosts =
  handSpeed :: number
  algorithm :: number
  iteration :: number

record EquipmentItem =
  level :: number
  owned :: bool

record Equipment =
  keyboard :: EquipmentItem
  ideExtension :: EquipmentItem
  debugger :: EquipmentItem
  coffeeMachine :: EquipmentItem

record Statistics =
  totalLinesGenerated :: number
  totalBugsDefeated :: number
  totalPlayTime :: number
  keystrokes :: number
  filesOpened :: number
  filesSaved :: number

datatype bugType = NullPointerException | MemoryLeak | InfiniteLoop | SyntaxError | RuntimeError

record Reward =
  linesOfCode :: number
  bugFragments :: number
  experience :: number

text \<open>
  \<open>type\<close> and \<open>name\<close> of a bug are optional: \<^verbatim>\<open>bugTypes[i]\<close> is
  \<^verbatim>\<open>undefined\<close> for an index outside the array, which only a draw outside
  \<open>[0, 1)\<close> produces.
\<close>

record Bug =
  name :: "string option"
  type :: "bugType option"
  health :: number
  maxHealth :: number
  algorithm :: number
  iteration :: number
  reward :: Reward

record Battle =
  currentBug :: "Bug option"
  isInBattle :: bool

record Settings =
  autoSave :: bool
  showNotifications :: bool

record GameState =
  character :: Character
  resources :: Resources
  stats :: Stats
  upgradeCosts :: UpgradeCosts
  equipment :: Equipment
  statistics :: Statistics
  battle :: Battle
  settings :: Settings

subsection \<open>Persisted blobs\<close>

text \<open>
  What the extension's global state holds under the save key is a JSON value. An object
  is an association list: a JavaScript object keeps its keys in insertion order.
\<close>

datatype json =
    JNull
  | JBool bool
  | JNum number
  | JStr string
  | JArr "json list"
  | JObj "(string \<times> json) list"

text \<open>The truthiness of a value, as \<^verbatim>\<open>if (v)\<close> tests it.\<close>

fun truthy :: "json \<Rightarrow> bool" where
  "truthy JNull = False"
| "truthy (JBool b) = b"
| "truthy (JNum n) = (n \<noteq> 0)"
| "truthy (JStr s) = (s \<noteq> [])"
| "truthy (JArr xs) = True"
| "truthy (JObj kvs) = True"

text \<open>
  \<^verbatim>\<open>o[k] = v\<close> on the entries of an object: an existing key keeps its place, a new
  key goes to the end. \<^verbatim>\<open>delete o[k]\<close> removes the key.
\<close>

fun assign :: "string \<Rightarrow> json \<Rightarrow> (string \<times> json) list \<Rightarrow> (string \<times> json) list" where
  "assign k v [] = [(k, v)]"
| "assign k v (p # ps) = (if fst p = k then (k, v) # ps else p # assign k v ps)"

fun remove :: "string \<Rightarrow> (string \<times> json) list \<Rightarrow> (string \<times> json) list" where
  "remove k [] = []"
| "remove k (p # ps) = (if fst p = k then remove k ps else p # remove k ps)"

text \<open>
  Property access \<^verbatim>\<open>v.k\<close>: \<open>None\<close> is \<^verbatim>\<open>undefined\<close>. Only an object of a
  JSON document has the keys the loader looks at; on a number, a string, a boolean or an
  array they are \<^verbatim>\<open>undefined\<close>.
\<close>

fun get_prop :: "string \<Rightarrow> json \<Rightarrow> json option" where
  "get_prop k (JObj kvs) = map_of kvs k"
| "get_prop k v = None"

fun set_prop :: "string \<Rightarrow> json \<Rightarrow> json \<Rightarrow> json" where
  "set_prop k v (JObj kvs) = JObj (assign k v kvs)"
| "set_prop k v w = w"

fun delete_prop :: "string \<Rightarrow> json \<Rightarrow> json" where
  "delete_prop k (JObj kvs) = JObj (remove k kvs)"
| "delete_prop k w = w"

subsection \<open>The manager\<close>

text \<open>
  Information messages are recorded by what they report, not by their text: the level
  reached, or the name of the defeated bug with the lines of code and the fragments won.
\<close>

datatype message =
    LevelUpMessage number
  | DefeatMessage "string option" number number

text \<open>
  \<open>globalState\<close> is the entry of the extension's global state under the save key
  (\<open>None\<close>: nothing saved), \<open>shown\<close> the information messages shown so far, oldest
  first.
\<close>

record GameStateManager =
  gameState :: GameState
  globalState :: "json option"
  shown :: "message list"


section \<open>The operations, from the source\<close>

subsection \<open>Default state and saving\<close>

text \<open>\<^verbatim>\<open>createDefaultGameState\<close>. The name of the character is the UTF-8 of the literal.\<close>

definition createDefaultGameState :: GameState where
  "createDefaultGameState =
     \<lparr>character =
        \<lparr>Character.name = [CHR 0xE4, CHR 0xBB, CHR 0xA3, CHR 0xE7, CHR 0xA0, CHR 0x81,
                           CHR 0xE5, CHR 0x8B, CHR 0x87, CHR 0xE8, CHR 0x80, CHR 0x85],
         Character.level = 1,
         Character.experience = 0,
         experienceToNext = 100\<rparr>,
      resources = \<lparr>Resources.linesOfCode = 0, Resources.bugFragments = 0\<rparr>,
      stats = \<lparr>Stats.handSpeed = 1, Stats.algorithm = 5, Stats.iteration = 3\<rparr>,
      upgradeCosts =
        \<lparr>UpgradeCosts.handSpeed = 50, UpgradeCosts.algorithm = 30, UpgradeCosts.iteration = 40\<rparr>,
      equipment =
        \<lparr>keyboard = \<lparr>EquipmentItem.level = 1, owned = False\<rparr>,
         ideExtension = \<lparr>EquipmentItem.level = 1, owned = False\<rparr>,
         debugger = \<lparr>EquipmentItem.level = 1, owned = False\<rparr>,
         coffeeMachine = \<lparr>EquipmentItem.level = 1, owned = False\<rparr>\<rparr>,
      statistics =
        \<lparr>totalLinesGenerated = 0, totalBugsDefeated = 0, totalPlayTime = 0,
         keystrokes = 0, filesOpened = 0, filesSaved = 0\<rparr>,
      battle = \<lparr>currentBug = None, isInBattle = False\<rparr>,
      settings = \<lparr>autoSave = True, showNotifications = True\<rparr>\<rparr>"

text \<open>
  The JSON document of a state, as the global state stores it: one object per nested
  object, keys in the order of the interface, \<^verbatim>\<open>null\<close> for an empty slot, and no key
  for an \<^verbatim>\<open>undefined\<close> value.
\<close>

definition json_of_Character :: "Character \<Rightarrow> json" where
  "json_of_Character c =
     JObj [(''name'', JStr (Character.name c)), (''level'', JNum (Character.level c)),
           (''experience'', JNum (Character.experience c)),
           (''experienceToNext'', JNum (experienceToNext c))]"

definition json_of_Resources :: "Resources \<Rightarrow> json" where
  "json_of_Resources r =
     JObj [(''linesOfCode'', JNum (Resources.linesOfCode r)),
           (''bugFragments'', JNum (Resources.bugFragments r))]"

definition json_of_Stats :: "Stats \<Rightarrow> json" where
  "json_of_Stats s =
     JObj [(''handSpeed'', JNum (Stats.handSpeed s)), (''algorithm'', JNum (Stats.algorithm s)),
           (''iteration'', JNum (Stats.iteration s))]"

definition json_of_UpgradeCosts :: "UpgradeCosts \<Rightarrow> json" where
  "json_of_UpgradeCosts u =
     JObj [(''handSpeed'', JNum (UpgradeCosts.handSpeed u)),
           (''algorithm'', JNum (UpgradeCosts.algorithm u)),
           (''iteration'', JNum (UpgradeCosts.iteration u))]"

definition json_of_EquipmentItem :: "EquipmentItem \<Rightarrow> json" where
  "json_of_EquipmentItem e = JObj [(''level'', JNum (EquipmentItem.level e)), (''owned'', JBool (owned e))]"

definition json_of_Equipment :: "Equipment \<Rightarrow> json" where
  "json_of_Equipment e =
     JObj [(''keyboard'', json_of_EquipmentItem (keyboard e)),
           (''ideExtension'', json_of_EquipmentItem (ideExtension e)),
           (''debugger'', json_of_EquipmentItem (debugger e)),
           (''coffeeMachine'', json_of_EquipmentItem (coffeeMachine e))]"

definition json_of_Statistics :: "Statistics \<Rightarrow> json" where
  "json_of_Statistics s =
     JObj [(''totalLinesGenerated'', JNum (totalLinesGenerated s)),
           (''totalBugsDefeated'', JNum (totalBugsDefeated s)),
           (''totalPlayTime'', JNum (totalPlayTime s)),
           (''keystrokes'', JNum (keystrokes s)),
           (''filesOpened'', JNum (filesOpened s)),
           (''filesSaved'', JNum (filesSaved s))]"

fun string_of_bugType :: "bugType \<Rightarrow> string" where
  "string_of_bugType NullPointerException = ''NullPointerException''"
| "string_of_bugType MemoryLeak = ''MemoryLeak''"
| "string_of_bugType InfiniteLoop = ''InfiniteLoop''"
| "string_of_bugType SyntaxError = ''SyntaxError''"
| "string_of_bugType RuntimeError = ''RuntimeError''"

definition json_of_Reward :: "Reward \<Rightarrow> json" where
  "json_of_Reward r =
     JObj [(''linesOfCode'', JNum (Reward.linesOfCode r)),
           (''bugFragments'', JNum (Reward.bugFragments r)),
           (''experience'', JNum (Reward.experience r))]"

definition json_of_Bug :: "Bug \<Rightarrow> json" where
  "json_of_Bug b =
     JObj ((case Bug.name b of None \<Rightarrow> [] | Some n \<Rightarrow> [(''name'', JStr n)]) @
           (case type b of None \<Rightarrow> [] | Some t \<Rightarrow> [(''type'', JStr (string_of_bugType t))]) @
           [(''health'', JNum (health b)), (''maxHealth'', JNum (maxHealth b)),
            (''algorithm'', JNum (Bug.algorithm b)), (''iteration'', JNum (Bug.iteration b)),
            (''reward'', json_of_Reward (reward b))])"

definition json_of_Battle :: "Battle \<Rightarrow> json" where
  "json_of_Battle b =
     JObj [(''currentBug'', (case currentBug b of None \<Rightarrow> JNull | Some bug \<Rightarrow> json_of_Bug bug)),
           (''isInBattle'', JBool (isInBattle b))]"

definition json_of_Settings :: "Settings \<Rightarrow> json" where
  "json_of_Settings s =
     JObj [(''autoSave'', JBool (autoSave s)), (''showNotifications'', JBool (showNotifications s))]"

definition json_of_GameState :: "GameState \<Rightarrow> json" where
  "json_of_GameState g =
     JObj [(''character'', json_of_Character (character g)),
           (''resources'', json_of_Resources (resources g)),
           (''stats'', json_of_Stats (stats g)),
           (''upgradeCosts'', json_of_UpgradeCosts (upgradeCosts g)),
           (''equipment'', json_of_Equipment (equipment g)),
           (''statistics'', json_of_Statistics (statistics g)),
           (''battle'', json_of_Battle (battle g)),
           (''settings'', json_of_Settings (settings g))]"

text \<open>\<^verbatim>\<open>saveGameState\<close>: the global state takes the document of the current state.\<close>

definition saveGameState :: "GameStateManager \<Rightarrow> GameStateManager" where
  "saveGameState m = m\<lparr>globalState := Some (json_of_GameState (gameState m))\<rparr>"

text \<open>\<^verbatim>\<open>resetGame\<close>.\<close>

definition resetGame :: "GameStateManager \<Rightarrow> GameStateManager" where
  "resetGame m = saveGameState (m\<lparr>gameState := createDefaultGameState\<rparr>)"

subsection \<open>Production and battle\<close>

text \<open>\<^verbatim>\<open>calculateLocPerSecond\<close>.\<close>

definition calculateLocPerSecond :: "GameStateManager \<Rightarrow> number" where
  "calculateLocPerSecond m =
     (let baseRate = Stats.handSpeed (stats (gameState m)) in
      if owned (ideExtension (equipment (gameState m)))
      then baseRate * (1 + EquipmentItem.level (ideExtension (equipment (gameState m))) * 0.1)
      else baseRate)"

text \<open>\<^verbatim>\<open>calculateFragmentsPerBug\<close>.\<close>

definition calculateFragmentsPerBug :: "number \<Rightarrow> GameStateManager \<Rightarrow> number" where
  "calculateFragmentsPerBug baseBugFragments m =
     (let fragmentBonus = Math_floor (baseBugFragments * Stats.iteration (stats (gameState m)) * 0.1)
      in baseBugFragments + fragmentBonus)"

text \<open>
  \<^verbatim>\<open>defeatBug\<close>: the rewards, the counter, the slot and the flag, then the message when
  notifications are on.
\<close>

definition defeatBug :: "Bug \<Rightarrow> GameStateManager \<Rightarrow> GameStateManager" where
  "defeatBug bug m =
     (let g = gameState m;
          fragmentBonus =
            Math_floor (Reward.bugFragments (reward bug) * Stats.iteration (stats g) * 0.1);
          totalFragments = Reward.bugFragments (reward bug) + fragmentBonus;
          g' = g\<lparr>resources := (resources g)
                    \<lparr>Resources.linesOfCode :=
                        Resources.linesOfCode (resources g) + Reward.linesOfCode (reward bug),
                     Resources.bugFragments :=
                        Resources.bugFragments (resources g) + totalFragments\<rparr>,
                 character := (character g)
                    \<lparr>Character.experience :=
                        Character.experience (character g) + Reward.experience (reward bug)\<rparr>,
                 statistics := (statistics g)
                    \<lparr>totalBugsDefeated := totalBugsDefeated (statistics g) + 1\<rparr>,
                 battle := (battle g)\<lparr>currentBug := None, isInBattle := False\<rparr>\<rparr>
      in m\<lparr>gameState := g',
            shown := (if showNotifications (settings g)
                      then shown m @ [DefeatMessage (Bug.name bug) (Reward.linesOfCode (reward bug))
                                        totalFragments]
                      else shown m)\<rparr>)"

text \<open>
  \<^verbatim>\<open>processBattle\<close>. The bug is the object in the slot: its health is lowered in
  place before the test.
\<close>

definition processBattle :: "GameStateManager \<Rightarrow> GameStateManager" where
  "processBattle m =
     (let g = gameState m in
      if \<not> isInBattle (battle g) then m
      else case currentBug (battle g) of
             None \<Rightarrow> m
           | Some bug0 \<Rightarrow>
               let playerAlgorithm = Stats.algorithm (stats g);
                   damage = max 1 (playerAlgorithm - Bug.iteration bug0);
                   bug = bug0\<lparr>health := health bug0 - damage\<rparr>;
                   m1 = m\<lparr>gameState := g\<lparr>battle := (battle g)\<lparr>currentBug := Some bug\<rparr>\<rparr>\<rparr>
               in if health bug \<le> 0 then defeatBug bug m1 else m1)"

text \<open>\<^verbatim>\<open>getBugDisplayName\<close>: the UTF-8 of the five literals.\<close>

fun getBugDisplayName :: "bugType option \<Rightarrow> string option" where
  "getBugDisplayName (Some NullPointerException) =
     Some [CHR 0xE7, CHR 0xA9, CHR 0xBA, CHR 0xE6, CHR 0x8C, CHR 0x87, CHR 0xE9, CHR 0x92, CHR 0x88,
           CHR 0xE5, CHR 0xBC, CHR 0x82, CHR 0xE5, CHR 0xB8, CHR 0xB8, CHR 0xE6, CHR 0x80, CHR 0xAA]"
| "getBugDisplayName (Some MemoryLeak) =
     Some [CHR 0xE5, CHR 0x86, CHR 0x85, CHR 0xE5, CHR 0xAD, CHR 0x98, CHR 0xE6, CHR 0xB3, CHR 0x84,
           CHR 0xE6, CHR 0xBC, CHR 0x8F, CHR 0xE8, CHR 0x99, CHR 0xAB]"
| "getBugDisplayName (Some InfiniteLoop) =
     Some [CHR 0xE6, CHR 0xAD, CHR 0xBB, CHR 0xE5, CHR 0xBE, CHR 0xAA, CHR 0xE7, CHR 0x8E, CHR 0xAF,
           CHR 0xE9, CHR 0xAD, CHR 0x94]"
| "getBugDisplayName (Some SyntaxError) =
     Some [CHR 0xE8, CHR 0xAF, CHR 0xAD, CHR 0xE6, CHR 0xB3, CHR 0x95, CHR 0xE9, CHR 0x94, CHR 0x99,
           CHR 0xE8, CHR 0xAF, CHR 0xAF, CHR 0xE7, CHR 0xB2, CHR 0xBE]"
| "getBugDisplayName (Some RuntimeError) =
     Some [CHR 0xE8, CHR 0xBF, CHR 0x90, CHR 0xE8, CHR 0xA1, CHR 0x8C, CHR 0xE6, CHR 0x97, CHR 0xB6,
           CHR 0xE5, CHR 0xBC, CHR 0x82, CHR 0xE5, CHR 0xB8, CHR 0xB8, CHR 0xE5, CHR 0x85, CHR 0xBD]"
| "getBugDisplayName None = None"

text \<open>\<^verbatim>\<open>createBug\<close>.\<close>

definition createBug :: "bugType option \<Rightarrow> GameStateManager \<Rightarrow> Bug" where
  "createBug ty m =
     (let baseHealth = 10 + Character.level (character (gameState m)) * 5;
          baseAlgorithm = 5 + Character.level (character (gameState m)) * 2;
          baseReward = max 1 (Math_floor (Character.level (character (gameState m)) / 2))
      in \<lparr>Bug.name = getBugDisplayName ty,
          type = ty,
          health = baseHealth,
          maxHealth = baseHealth,
          Bug.algorithm = baseAlgorithm,
          Bug.iteration = Math_floor (baseAlgorithm * 0.2),
          reward = \<lparr>Reward.linesOfCode = baseReward * 10,
                    Reward.bugFragments = baseReward,
                    Reward.experience = baseReward * 5\<rparr>\<rparr>)"

text \<open>
  \<^verbatim>\<open>spawnRandomBug\<close>, with the value \<open>r\<close> of its draw: the type at index
  \<open>\<lfloor>r \<times> 5\<rfloor>\<close> of the array, \<^verbatim>\<open>undefined\<close> outside it.
\<close>

definition bugTypes :: "bugType list" where
  "bugTypes = [NullPointerException, MemoryLeak, InfiniteLoop, SyntaxError, RuntimeError]"

definition spawnRandomBug :: "number \<Rightarrow> GameStateManager \<Rightarrow> GameStateManager" where
  "spawnRandomBug r m =
     (let i = \<lfloor>r * of_nat (length bugTypes)\<rfloor>;
          randomType = (if 0 \<le> i \<and> i < int (length bugTypes) then Some (bugTypes ! nat i) else None);
          bug = createBug randomType m;
          g = gameState m
      in m\<lparr>gameState := g\<lparr>battle := (battle g)\<lparr>currentBug := Some bug, isInBattle := True\<rparr>\<rparr>\<rparr>)"


subsection \<open>Levelling\<close>

text \<open>\<^verbatim>\<open>calculateExperienceForNextLevel\<close>.\<close>

definition calculateExperienceForNextLevel :: "GameStateManager \<Rightarrow> number" where
  "calculateExperienceForNextLevel m = 100 + (Character.level (character (gameState m)) - 1) * 50"

text \<open>
  The body of the loop of \<^verbatim>\<open>checkLevelUp\<close>, statement by statement: the threshold
  is taken off the experience, the level goes up, the threshold is recomputed from the
  new level, the three stats grow, and the message is shown when notifications are on.
\<close>

definition checkLevelUp_body :: "GameStateManager \<Rightarrow> GameStateManager" where
  "checkLevelUp_body m =
     (let g = gameState m;
          c1 = (character g)\<lparr>Character.experience :=
                  Character.experience (character g) - experienceToNext (character g)\<rparr>;
          c2 = c1\<lparr>Character.level := Character.level c1 + 1\<rparr>;
          c3 = c2\<lparr>experienceToNext :=
                  calculateExperienceForNextLevel (m\<lparr>gameState := g\<lparr>character := c2\<rparr>\<rparr>)\<rparr>;
          s = stats g;
          g3 = g\<lparr>character := c3,
                 stats := s\<lparr>Stats.handSpeed := Stats.handSpeed s + 1,
                           Stats.algorithm := Stats.algorithm s + 2,
                           Stats.iteration := Stats.iteration s + 1\<rparr>\<rparr>
      in m\<lparr>gameState := g3,
            shown := (if showNotifications (settings g)
                      then shown m @ [LevelUpMessage (Character.level c3)]
                      else shown m)\<rparr>)"

text \<open>
  Three measures for the termination of the loop, in lexicographic order: whether the
  threshold is not yet the one computed from the level (true at most before the first
  round), how far the level is below zero, and how many fifties the experience holds.
\<close>

definition stale_threshold :: "GameStateManager \<Rightarrow> nat" where
  "stale_threshold m =
     (if experienceToNext (character (gameState m)) =
         100 + (Character.level (character (gameState m)) - 1) * 50
      then 0 else 1)"

definition levels_below_zero :: "GameStateManager \<Rightarrow> nat" where
  "levels_below_zero m = nat \<lceil>- Character.level (character (gameState m))\<rceil>"

definition experience_fifties :: "GameStateManager \<Rightarrow> nat" where
  "experience_fifties m = nat \<lceil>Character.experience (character (gameState m)) / 50\<rceil>"

text \<open>\<^verbatim>\<open>checkLevelUp\<close>: the while loop.\<close>

function checkLevelUp :: "GameStateManager \<Rightarrow> GameStateManager" where
  "checkLevelUp m =
     (if Character.experience (character (gameState m)) \<ge> experienceToNext (character (gameState m))
      then checkLevelUp (checkLevelUp_body m)
      else m)"
  by pat_completeness auto
termination
proof (relation "measures [stale_threshold, levels_below_zero, experience_fifties]")
  show "wf (measures [stale_threshold, levels_below_zero, experience_fifties])" by simp
next
  fix m :: GameStateManager
  let ?c = "character (gameState m)"
  let ?c' = "character (gameState (checkLevelUp_body m))"
  assume ge: "experienceToNext ?c \<le> Character.experience ?c"
  have c': "?c' = ?c\<lparr>Character.experience := Character.experience ?c - experienceToNext ?c,
                       Character.level := Character.level ?c + 1,
                       experienceToNext := 100 + Character.level ?c * 50\<rparr>"
    by (simp add: checkLevelUp_body_def Let_def calculateExperienceForNextLevel_def)
  have fresh: "stale_threshold (checkLevelUp_body m) = 0"
    by (simp add: stale_threshold_def c')
  have below_le: "levels_below_zero (checkLevelUp_body m) \<le> levels_below_zero m"
    by (simp add: levels_below_zero_def c')
  show "(checkLevelUp_body m, m) \<in> measures [stale_threshold, levels_below_zero, experience_fifties]"
  proof (cases "stale_threshold m = 0")
    case False
    then show ?thesis by (simp add: fresh)
  next
    case True
    then have t: "experienceToNext ?c = 100 + (Character.level ?c - 1) * 50"
      by (simp add: stale_threshold_def split: if_splits)
    show ?thesis
    proof (cases "Character.level ?c < 0")
      case True
      then have "levels_below_zero (checkLevelUp_body m) < levels_below_zero m"
        by (simp add: levels_below_zero_def c')
      then show ?thesis using \<open>stale_threshold m = 0\<close> by (simp add: fresh)
    next
      case False
      then have fifty: "50 \<le> experienceToNext ?c" using t by simp
      then have "(Character.experience ?c - experienceToNext ?c) / 50 \<le> Character.experience ?c / 50 - 1"
        by simp
      then have "\<lceil>(Character.experience ?c - experienceToNext ?c) / 50\<rceil>
                   \<le> \<lceil>Character.experience ?c / 50\<rceil> - 1"
        by (metis ceiling_diff_one ceiling_mono)
      moreover have "0 < \<lceil>Character.experience ?c / 50\<rceil>"
        using fifty ge by (simp add: ceiling_less_iff)
      ultimately have "experience_fifties (checkLevelUp_body m) < experience_fifties m"
        by (simp add: experience_fifties_def c')
      then show ?thesis
        using below_le \<open>stale_threshold m = 0\<close> by (auto simp add: fresh)
    qed
  qed
qed

declare checkLevelUp.simps [simp del]

subsection \<open>The tick\<close>

text \<open>
  \<^verbatim>\<open>updateGameState\<close>, statement by statement. \<open>r1\<close> is the draw of the spawn
  test, made only when the battle flag is off (the \<^verbatim>\<open>&&\<close> does not evaluate its
  right side otherwise); \<open>r2\<close> is the draw of \<^verbatim>\<open>spawnRandomBug\<close>.
\<close>

definition updateGameState :: "number \<Rightarrow> number \<Rightarrow> GameStateManager \<Rightarrow> GameStateManager" where
  "updateGameState r1 r2 m =
     (let locPerSecond = calculateLocPerSecond m;
          g = gameState m;
          g1 = g\<lparr>resources := (resources g)
                 \<lparr>Resources.linesOfCode := Resources.linesOfCode (resources g) + locPerSecond\<rparr>\<rparr>;
          g2 = g1\<lparr>statistics := (statistics g1)
                 \<lparr>totalLinesGenerated := totalLinesGenerated (statistics g1) + locPerSecond\<rparr>\<rparr>;
          g3 = g2\<lparr>statistics := (statistics g2)
                 \<lparr>totalPlayTime := totalPlayTime (statistics g2) + 1\<rparr>\<rparr>;
          m3 = processBattle (m\<lparr>gameState := g3\<rparr>);
          m4 = (if \<not> isInBattle (battle (gameState m3)) \<and> r1 < 0.1
                then spawnRandomBug r2 m3 else m3);
          m5 = checkLevelUp m4
      in if autoSave (settings (gameState m5)) then saveGameState m5 else m5)"

subsection \<open>Upgrades\<close>

datatype upgradeType = HandSpeed | Algorithm | Iteration

text \<open>\<^verbatim>\<open>stats[upgradeType]\<close> and \<^verbatim>\<open>upgradeCosts[upgradeType]\<close>, read and written.\<close>

fun stat_at :: "upgradeType \<Rightarrow> Stats \<Rightarrow> number" where
  "stat_at HandSpeed s = Stats.handSpeed s"
| "stat_at Algorithm s = Stats.algorithm s"
| "stat_at Iteration s = Stats.iteration s"

fun stat_put :: "upgradeType \<Rightarrow> number \<Rightarrow> Stats \<Rightarrow> Stats" where
  "stat_put HandSpeed v s = s\<lparr>Stats.handSpeed := v\<rparr>"
| "stat_put Algorithm v s = s\<lparr>Stats.algorithm := v\<rparr>"
| "stat_put Iteration v s = s\<lparr>Stats.iteration := v\<rparr>"

fun cost_at :: "upgradeType \<Rightarrow> UpgradeCosts \<Rightarrow> number" where
  "cost_at HandSpeed u = UpgradeCosts.handSpeed u"
| "cost_at Algorithm u = UpgradeCosts.algorithm u"
| "cost_at Iteration u = UpgradeCosts.iteration u"

fun cost_put :: "upgradeType \<Rightarrow> number \<Rightarrow> UpgradeCosts \<Rightarrow> UpgradeCosts" where
  "cost_put HandSpeed v u = u\<lparr>UpgradeCosts.handSpeed := v\<rparr>"
| "cost_put Algorithm v u = u\<lparr>UpgradeCosts.algorithm := v\<rparr>"
| "cost_put Iteration v u = u\<lparr>UpgradeCosts.iteration := v\<rparr>"

text \<open>\<^verbatim>\<open>buyUpgrade\<close>: the returned boolean and the manager left behind.\<close>

definition buyUpgrade :: "upgradeType \<Rightarrow> GameStateManager \<Rightarrow> bool \<times> GameStateManager" where
  "buyUpgrade upgradeType m =
     (let g = gameState m;
          cost = cost_at upgradeType (upgradeCosts g)
      in if Resources.linesOfCode (resources g) \<ge> cost
         then (True,
               m\<lparr>gameState := g
                  \<lparr>resources := (resources g)
                      \<lparr>Resources.linesOfCode := Resources.linesOfCode (resources g) - cost\<rparr>,
                   stats := stat_put upgradeType
                      (stat_at upgradeType (stats g) + (if upgradeType = HandSpeed then 1 else 2))
                      (stats g),
                   upgradeCosts := cost_put upgradeType (Math_floor (cost * 1.5)) (upgradeCosts g)\<rparr>\<rparr>)
         else (False, m))"

subsection \<open>Editor interactions\<close>

datatype interaction = keystroke | fileOpen | fileSave

text \<open>
  \<^verbatim>\<open>onEditorInteraction\<close>. \<open>r\<close> is the draw of the branch taken (the file-open
  branch draws nothing); the \<^verbatim>\<open>data\<close> argument is not read by the source.
\<close>

definition onEditorInteraction :: "interaction \<Rightarrow> number \<Rightarrow> GameStateManager \<Rightarrow> GameStateManager" where
  "onEditorInteraction ty r m =
     (let g = gameState m in
      case ty of
        keystroke \<Rightarrow>
          let g1 = g\<lparr>statistics := (statistics g)\<lparr>keystrokes := keystrokes (statistics g) + 1\<rparr>\<rparr>
          in if r < 0.1
             then let bonus = (if owned (keyboard (equipment g1))
                               then 1 * (1 + EquipmentItem.level (keyboard (equipment g1)) * 0.2)
                               else 1)
                  in m\<lparr>gameState := g1\<lparr>resources := (resources g1)
                         \<lparr>Resources.linesOfCode := Resources.linesOfCode (resources g1) + bonus\<rparr>\<rparr>\<rparr>
             else m\<lparr>gameState := g1\<rparr>
      | fileOpen \<Rightarrow>
          m\<lparr>gameState := g\<lparr>statistics := (statistics g)\<lparr>filesOpened := filesOpened (statistics g) + 1\<rparr>\<rparr>\<rparr>
      | fileSave \<Rightarrow>
          let g1 = g\<lparr>statistics := (statistics g)\<lparr>filesSaved := filesSaved (statistics g) + 1\<rparr>\<rparr>;
              saveBonus = 5 + Math_floor (r * 10)
          in m\<lparr>gameState := g1
                \<lparr>resources := (resources g1)
                    \<lparr>Resources.linesOfCode := Resources.linesOfCode (resources g1) + saveBonus\<rparr>,
                 character := (character g1)
                    \<lparr>Character.experience := Character.experience (character g1) + 2\<rparr>\<rparr>\<rparr>)"


subsection \<open>Loading and migrating a saved state\<close>

text \<open>
  One renaming of the loader:
  \<^verbatim>\<open>if (o.old !== undefined) { o.new = o.old; delete o.old; }\<close>
\<close>

definition rename_prop :: "string \<Rightarrow> string \<Rightarrow> json \<Rightarrow> json" where
  "rename_prop old new obj =
     (case get_prop old obj of
        None \<Rightarrow> obj
      | Some v \<Rightarrow> delete_prop old (set_prop new v obj))"

text \<open>
  The three renamings applied to \<^verbatim>\<open>savedState.stats\<close> and, with the same keys, to
  \<^verbatim>\<open>savedState.upgradeCosts\<close>; the two applied to the bug in the slot.
\<close>

definition rename_stat_keys :: "json \<Rightarrow> json" where
  "rename_stat_keys obj =
     rename_prop ''defense'' ''iteration''
       (rename_prop ''attack'' ''algorithm''
         (rename_prop ''computingPower'' ''handSpeed'' obj))"

definition rename_bug_keys :: "json \<Rightarrow> json" where
  "rename_bug_keys bug =
     rename_prop ''defense'' ''iteration'' (rename_prop ''attack'' ''algorithm'' bug)"

text \<open>
  The three blocks of the loader. Each changes the nested object in place, so the key of
  the nested object keeps its position in the parent.
\<close>

definition migrate_stats :: "json \<Rightarrow> json" where
  "migrate_stats savedState =
     (case get_prop ''stats'' savedState of
        None \<Rightarrow> savedState
      | Some st \<Rightarrow>
          if truthy st then set_prop ''stats'' (rename_stat_keys st) savedState else savedState)"

definition migrate_upgradeCosts :: "json \<Rightarrow> json" where
  "migrate_upgradeCosts savedState =
     (case get_prop ''upgradeCosts'' savedState of
        None \<Rightarrow> savedState
      | Some uc \<Rightarrow>
          if truthy uc then set_prop ''upgradeCosts'' (rename_stat_keys uc) savedState
          else savedState)"

definition migrate_currentBug :: "json \<Rightarrow> json" where
  "migrate_currentBug savedState =
     (case get_prop ''battle'' savedState of
        None \<Rightarrow> savedState
      | Some bt \<Rightarrow>
          (case get_prop ''currentBug'' bt of
             None \<Rightarrow> savedState
           | Some bug \<Rightarrow>
               if truthy bug
               then set_prop ''battle'' (set_prop ''currentBug'' (rename_bug_keys bug) bt) savedState
               else savedState))"

text \<open>
  \<^verbatim>\<open>loadGameState\<close>, from what the global state holds under the save key. The source
  returns the migrated blob itself as the state, without a check of its shape, so the
  result is a JSON value; the default state is returned as its document.
\<close>

definition loadGameState :: "json option \<Rightarrow> json" where
  "loadGameState stored =
     (case stored of
        None \<Rightarrow> json_of_GameState createDefaultGameState
      | Some savedState \<Rightarrow>
          if truthy savedState
          then migrate_currentBug (migrate_upgradeCosts (migrate_stats savedState))
          else json_of_GameState createDefaultGameState)"

section \<open>The arithmetic of doubles\<close>

text \<open>
  The value of an arithmetic operation of the source is the double nearest to the exact
  result, with ties to the even significand (IEEE 754, binary64): a double is
  \<open>k \<times> 2^q\<close> with \<open>\<bar>k\<bar> < 2^53\<close> and \<open>q \<ge> -1074\<close>, and the exponent
  \<open>q\<close> of the result is fixed by the binade of the exact value. The overflow to
  \<^verbatim>\<open>Infinity\<close> (beyond \<open>2^1024\<close>) and \<^verbatim>\<open>NaN\<close> are not modelled: the numbers
  are finite.
\<close>

definition round_half_even :: "real \<Rightarrow> int" where
  "round_half_even y =
     (let f = \<lfloor>y\<rfloor>; d = y - of_int f
      in if d < 1 / 2 then f else if 1 / 2 < d then f + 1 else if even f then f else f + 1)"

text \<open>
  The binade of a number other than zero, \<open>\<lfloor>log\<^sub>2 \<bar>x\<bar>\<rfloor>\<close>, from the bit length of the
  integer part of \<open>\<bar>x\<bar>\<close> or of its inverse.
\<close>

definition binade :: "real \<Rightarrow> int" where
  "binade x =
     (let a = \<bar>x\<bar>
      in if 1 \<le> a then bitlen \<lfloor>a\<rfloor> - 1 else - bitlen (\<lceil>1 / a\<rceil> - 1))"

definition double_round :: "real \<Rightarrow> real" where
  "double_round x =
     (if x = 0 then 0
      else let q = max (binade x - 52) (- 1074)
           in of_int (round_half_even (x / 2 powi q)) * 2 powi q)"

text \<open>
  The integers of magnitude at most \<open>2^51\<close>: sums, differences and the product with
  \<^verbatim>\<open>1.5\<close> of such numbers are doubles.
\<close>

definition exact_int :: "real \<Rightarrow> bool" where
  "exact_int x \<longleftrightarrow> of_int \<lfloor>x\<rfloor> = x \<and> \<bar>x\<bar> \<le> 2 ^ 51"

subsection \<open>Upgrades, in doubles\<close>

text \<open>
  \<^verbatim>\<open>buyUpgrade\<close> with the rounding of its three arithmetic operations:
  \<^verbatim>\<open>linesOfCode -= cost\<close>, \<^verbatim>\<open>stats[upgradeType] += 1\<close> (or \<^verbatim>\<open>2\<close>) and
  \<^verbatim>\<open>Math.floor(cost * 1.5)\<close>. The comparison \<^verbatim>\<open>linesOfCode >= cost\<close> is exact, and so
  is the floor of a double.
\<close>

definition buyUpgrade_double :: "upgradeType \<Rightarrow> GameStateManager \<Rightarrow> bool \<times> GameStateManager" where
  "buyUpgrade_double upgradeType m =
     (let g = gameState m;
          cost = cost_at upgradeType (upgradeCosts g)
      in if Resources.linesOfCode (resources g) \<ge> cost
         then (True,
               m\<lparr>gameState := g
                  \<lparr>resources := (resources g)
                      \<lparr>Resources.linesOfCode :=
                          double_round (Resources.linesOfCode (resources g) - cost)\<rparr>,
                   stats := stat_put upgradeType
                      (double_round
                         (stat_at upgradeType (stats g) + (if upgradeType = HandSpeed then 1 else 2)))
                      (stats g),
                   upgradeCosts :=
                      cost_put upgradeType (Math_floor (double_round (cost * 1.5))) (upgradeCosts g)\<rparr>\<rparr>)
         else (False, m))"

subsection \<open>Production, in doubles\<close>



section \<open>Notions of the specification\<close>

subsection \<open>Sequences of public operations\<close>

text \<open>
  The public operations that change the state, each with the values of its draws, and the
  run of a sequence of them.
\<close>

datatype operation =
    Tick number number
  | Buy upgradeType
  | Interact interaction number
  | Reset

fun perform :: "operation \<Rightarrow> GameStateManager \<Rightarrow> GameStateManager" where
  "perform (Tick r1 r2) m = updateGameState r1 r2 m"
| "perform (Buy k) m = snd (buyUpgrade k m)"
| "perform (Interact ty r) m = onEditorInteraction ty r m"
| "perform Reset m = resetGame m"

fun run :: "operation list \<Rightarrow> GameStateManager \<Rightarrow> GameStateManager" where
  "run [] m = m"
| "run (op # ops) m = run ops (perform op m)"

text \<open>
  The number of purchases of stat \<open>k\<close> that have succeeded since the state was last
  the default state, counted along a run from the count \<open>n\<close>.
\<close>

fun purchases :: "upgradeType \<Rightarrow> nat \<Rightarrow> operation list \<Rightarrow> GameStateManager \<Rightarrow> nat" where
  "purchases k n [] m = n"
| "purchases k n (op # ops) m =
     purchases k
       (case op of
          Reset \<Rightarrow> 0
        | Buy k' \<Rightarrow> if k' = k \<and> fst (buyUpgrade k m) then Suc n else n
        | _ \<Rightarrow> n)
       ops (perform op m)"

text \<open>The manager as constructed when nothing was saved.\<close>

definition initial :: GameStateManager where
  "initial = \<lparr>gameState = createDefaultGameState, globalState = None, shown = []\<rparr>"

text \<open>The flag of the battle agrees with the slot.\<close>

definition battle_consistent :: "GameStateManager \<Rightarrow> bool" where
  "battle_consistent m =
     (isInBattle (battle (gameState m)) = (currentBug (battle (gameState m)) \<noteq> None))"

text \<open>A sequence of ticks, each with its two draws.\<close>

definition ticks :: "(number \<times> number) list \<Rightarrow> operation list" where
  "ticks rs = map (\<lambda>(r1, r2). Tick r1 r2) rs"

subsection \<open>Upgrade costs\<close>

text \<open>
  The closed form of the specification for the cost after \<open>n\<close> purchases, and the
  scaling of one purchase.
\<close>

definition closed_form_cost :: "number \<Rightarrow> nat \<Rightarrow> number" where
  "closed_form_cost initialCost n = Math_floor (initialCost * 1.5 ^ n)"

definition scale_cost :: "number \<Rightarrow> number" where
  "scale_cost c = Math_floor (c * 1.5)"

text \<open>The scaling of one purchase as the source computes it, in doubles.\<close>

definition scale_cost_double :: "number \<Rightarrow> number" where
  "scale_cost_double c = Math_floor (double_round (c * 1.5))"

subsection \<open>The tick as the specification describes it\<close>

text \<open>
  The phases of \<open>tick()\<close> in the words of the specification: accrual with
  \<open>production = productionStat \<times> (1 + equipmentBonus)\<close>, the spawn check, the
  conditional autosave, and the tick as their composition with combat resolution and
  the level-up check in the stated order.
\<close>

definition equipmentBonus_spec :: "GameStateManager \<Rightarrow> number" where
  "equipmentBonus_spec m =
     (if owned (ideExtension (equipment (gameState m)))
      then EquipmentItem.level (ideExtension (equipment (gameState m))) * 0.1
      else 0)"

definition accrue_spec :: "GameStateManager \<Rightarrow> GameStateManager" where
  "accrue_spec m =
     (let g = gameState m;
          production = Stats.handSpeed (stats g) * (1 + equipmentBonus_spec m)
      in m\<lparr>gameState := g
            \<lparr>resources := (resources g)
                \<lparr>Resources.linesOfCode := Resources.linesOfCode (resources g) + production\<rparr>,
             statistics := (statistics g)
                \<lparr>totalLinesGenerated := totalLinesGenerated (statistics g) + production,
                 totalPlayTime := totalPlayTime (statistics g) + 1\<rparr>\<rparr>\<rparr>)"

definition spawn_check_spec :: "number \<Rightarrow> number \<Rightarrow> GameStateManager \<Rightarrow> GameStateManager" where
  "spawn_check_spec r1 r2 m =
     (if \<not> isInBattle (battle (gameState m)) \<and> r1 < 0.1 then spawnRandomBug r2 m else m)"

definition autosave_spec :: "GameStateManager \<Rightarrow> GameStateManager" where
  "autosave_spec m = (if autoSave (settings (gameState m)) then saveGameState m else m)"

definition tick_spec :: "number \<Rightarrow> number \<Rightarrow> GameStateManager \<Rightarrow> GameStateManager" where
  "tick_spec r1 r2 m =
     autosave_spec (checkLevelUp (spawn_check_spec r1 r2 (processBattle (accrue_spec m))))"

subsection \<open>Deprecated keys of a saved blob\<close>

text \<open>
  The three places where the loader looks for deprecated keys, and the deprecated keys
  found there.
\<close>

definition stats_group :: "json \<Rightarrow> json option" where
  "stats_group blob = get_prop ''stats'' blob"

definition upgradeCosts_group :: "json \<Rightarrow> json option" where
  "upgradeCosts_group blob = get_prop ''upgradeCosts'' blob"

definition currentBug_group :: "json \<Rightarrow> json option" where
  "currentBug_group blob =
     (case get_prop ''battle'' blob of None \<Rightarrow> None | Some bt \<Rightarrow> get_prop ''currentBug'' bt)"

definition stat_renamings :: "(string \<times> string) list" where
  "stat_renamings =
     [(''computingPower'', ''handSpeed''), (''attack'', ''algorithm''), (''defense'', ''iteration'')]"

definition bug_renamings :: "(string \<times> string) list" where
  "bug_renamings = [(''attack'', ''algorithm''), (''defense'', ''iteration'')]"

definition deprecated_in :: "(string \<times> string) list \<Rightarrow> json option \<Rightarrow> string list" where
  "deprecated_in renamings grp =
     (case grp of
        None \<Rightarrow> []
      | Some obj \<Rightarrow> filter (\<lambda>k. get_prop k obj \<noteq> None) (map fst renamings))"

definition deprecated_keys :: "json \<Rightarrow> string list" where
  "deprecated_keys blob =
     deprecated_in stat_renamings (stats_group blob) @
     deprecated_in stat_renamings (upgradeCosts_group blob) @
     deprecated_in bug_renamings (currentBug_group blob)"

text \<open>
  A change of the value under a key that is present, in place:
  \<^verbatim>\<open>if (o.k !== undefined) o.k = f(o.k)\<close>. The three blocks of the loader are of
  this form.
\<close>

definition modify_key :: "string \<Rightarrow> (json \<Rightarrow> json) \<Rightarrow> json \<Rightarrow> json" where
  "modify_key k f obj = (case get_prop k obj of None \<Rightarrow> obj | Some v \<Rightarrow> set_prop k (f v) obj)"

subsection \<open>States used as examples\<close>

text \<open>The default state with \<open>n\<close> lines of code in hand.\<close>

definition funded :: "number \<Rightarrow> GameStateManager" where
  "funded n =
     initial\<lparr>gameState := createDefaultGameState
       \<lparr>resources := \<lparr>Resources.linesOfCode = n, Resources.bugFragments = 0\<rparr>\<rparr>\<rparr>"

text \<open>The default state with experience \<open>e\<close>.\<close>

definition with_experience :: "number \<Rightarrow> GameStateManager" where
  "with_experience e =
     initial\<lparr>gameState := createDefaultGameState
       \<lparr>character := (character createDefaultGameState)\<lparr>Character.experience := e\<rparr>\<rparr>\<rparr>"

text \<open>An experience grant of \<open>x\<close>, as \<^verbatim>\<open>character.experience += x\<close>.\<close>

definition gain_experience :: "number \<Rightarrow> GameStateManager \<Rightarrow> GameStateManager" where
  "gain_experience x m =
     m\<lparr>gameState := (gameState m)
        \<lparr>character := (character (gameState m))
            \<lparr>Character.experience := Character.experience (character (gameState m)) + x\<rparr>\<rparr>\<rparr>"

text \<open>A bug whose reward carries 150 experience.\<close>

definition bounty_bug :: Bug where
  "bounty_bug =
     \<lparr>Bug.name = getBugDisplayName (Some SyntaxError), type = Some SyntaxError,
      health = 0, maxHealth = 15, Bug.algorithm = 7, Bug.iteration = 1,
      reward = \<lparr>Reward.linesOfCode = 10, Reward.bugFragments = 1, Reward.experience = 150\<rparr>\<rparr>"

text \<open>
  Eleven file saves with the draw 0.9 bring 14 lines of code each; then the algorithm
  upgrade is bought twice, or three times.
\<close>

definition two_algorithm_purchases :: "operation list" where
  "two_algorithm_purchases =
     replicate 11 (Interact fileSave 0.9) @ [Buy Algorithm, Buy Algorithm]"

definition three_algorithm_purchases :: "operation list" where
  "three_algorithm_purchases =
     replicate 11 (Interact fileSave 0.9) @ [Buy Algorithm, Buy Algorithm, Buy Algorithm]"

text \<open>
  The default state in battle with a bug as \<^verbatim>\<open>createBug\<close> makes it at level 1
  (defense 1, reward of 10 lines of code, 1 fragment and 5 experience), with health \<open>h\<close>.
\<close>

definition scenario_bug :: "number \<Rightarrow> Bug" where
  "scenario_bug h = (createBug (Some SyntaxError) initial)\<lparr>health := h\<rparr>"

definition in_battle :: "number \<Rightarrow> GameStateManager" where
  "in_battle h =
     initial\<lparr>gameState := createDefaultGameState
       \<lparr>battle := \<lparr>currentBug = Some (scenario_bug h), isInBattle = True\<rparr>\<rparr>\<rparr>"


definition costly :: GameStateManager where
  "costly =
     initial\<lparr>gameState := createDefaultGameState
       \<lparr>resources := \<lparr>Resources.linesOfCode = 6080126343834642, Resources.bugFragments = 0\<rparr>,
        upgradeCosts := (upgradeCosts createDefaultGameState)
           \<lparr>UpgradeCosts.handSpeed := 6080126343834642\<rparr>\<rparr>\<rparr>"


text \<open>
  In battle with a bug of health 4, five experience short of the first threshold: the
  kill of the next tick brings the level-up.
\<close>

definition about_to_level :: GameStateManager where
  "about_to_level =
     (in_battle 4)\<lparr>gameState := (gameState (in_battle 4))
        \<lparr>character := (character (gameState (in_battle 4)))\<lparr>Character.experience := 95\<rparr>\<rparr>\<rparr>"

text \<open>
  A tick whose spawn draw succeeds, a tick of battle, a file save, a purchase that is
  refused and a keystroke; and the two ticks alone, as draws.
\<close>

definition spawn_then_fight :: "operation list" where
  "spawn_then_fight = [Tick 0.05 0.3, Tick 0.5 0, Interact fileSave 0.2, Buy HandSpeed, Interact keystroke 0.01]"

definition spawn_and_strike :: "(number \<times> number) list" where
  "spawn_and_strike = [(0.05, 0.3), (0.5, 0)]"

text \<open>
  A save in the old format, with deprecated keys in all three places, and the same save
  in the current format.
\<close>

definition old_save :: json where
  "old_save =
     JObj [(''resources'', JObj [(''linesOfCode'', JNum 120), (''bugFragments'', JNum 3)]),
           (''stats'', JObj [(''computingPower'', JNum 2), (''attack'', JNum 7), (''defense'', JNum 4)]),
           (''upgradeCosts'', JObj [(''computingPower'', JNum 75), (''attack'', JNum 45), (''defense'', JNum 40)]),
           (''battle'', JObj [(''currentBug'',
               JObj [(''name'', JStr ''bug''), (''health'', JNum 9), (''attack'', JNum 7), (''defense'', JNum 1)]),
             (''isInBattle'', JBool True)])]"

definition migrated_save :: json where
  "migrated_save =
     JObj [(''resources'', JObj [(''linesOfCode'', JNum 120), (''bugFragments'', JNum 3)]),
           (''stats'', JObj [(''handSpeed'', JNum 2), (''algorithm'', JNum 7), (''iteration'', JNum 4)]),
           (''upgradeCosts'', JObj [(''handSpeed'', JNum 75), (''algorithm'', JNum 45), (''iteration'', JNum 40)]),
           (''battle'', JObj [(''currentBug'',
               JObj [(''name'', JStr ''bug''), (''health'', JNum 9), (''algorithm'', JNum 7), (''iteration'', JNum 1)]),
             (''isInBattle'', JBool True)])]"

section \<open>Properties\<close>

subsection \<open>Rounding to doubles\<close>

text \<open>
  A number \<open>k \<times> 2^e\<close> with \<open>\<bar>k\<bar> < 2^53\<close> is its own rounding: integers below
  \<open>2^53\<close> and their halves are doubles, and so are the sums, the differences and the
  products with \<^verbatim>\<open>1.5\<close> of integers of magnitude at most \<open>2^51\<close>.
\<close>

lemma int_binade:
  assumes "1 \<le> (n::int)"
  shows "2 powr of_int (bitlen n - 1) \<le> (of_int n :: real)"
    and "(of_int n :: real) + 1 \<le> 2 powr of_int (bitlen n)"
    and "0 \<le> bitlen n - 1"
proof -
  let ?k = "\<lfloor>log 2 (of_int n)\<rfloor>"
  have b: "bitlen n = ?k + 1" using assms by (simp add: bitlen_alt_def)
  have pos: "0 < (of_int n :: real)" using assms by simp
  have "?k = ?k" by simp
  then have k: "2 powr of_int ?k \<le> (of_int n :: real)" "(of_int n :: real) < 2 powr of_int (?k + 1)"
    using floor_log_eq_powr_iff [OF pos, of 2 ?k] by simp_all
  have k0: "0 \<le> ?k" using assms by simp
  show "2 powr of_int (bitlen n - 1) \<le> (of_int n :: real)" using k(1) b by simp
  show "0 \<le> bitlen n - 1" using k0 b by simp
  have "(2::real) powr of_int (?k + 1) = 2 ^ nat (?k + 1)"
    using k0 powr_realpow [of 2 "nat (?k + 1)"] by simp
  also have "\<dots> = of_int (2 ^ nat (?k + 1))" by simp
  finally have e: "(2::real) powr of_int (?k + 1) = of_int (2 ^ nat (?k + 1))" .
  have "(of_int n :: real) < of_int (2 ^ nat (?k + 1))" using k(2) e by simp
  then have "n < 2 ^ nat (?k + 1)" by (simp only: of_int_less_iff)
  then have "n + 1 \<le> 2 ^ nat (?k + 1)" by simp
  then have "(of_int (n + 1) :: real) \<le> of_int (2 ^ nat (?k + 1))" by (simp only: of_int_le_iff)
  then show "(of_int n :: real) + 1 \<le> 2 powr of_int (bitlen n)" using e b by simp
qed

lemma binade_log:
  assumes "x \<noteq> 0"
  shows "binade x = \<lfloor>log 2 \<bar>x\<bar>\<rfloor>"
proof -
  let ?a = "\<bar>x\<bar>"
  have pos: "0 < ?a" using assms by simp
  show ?thesis
  proof (cases "1 \<le> ?a")
    case True
    let ?n = "\<lfloor>?a\<rfloor>"
    have n1: "1 \<le> ?n" using True by simp
    note i = int_binade [OF n1]
    have lo: "2 powr of_int (bitlen ?n - 1) \<le> ?a"
      using i(1) of_int_floor_le [of ?a] by linarith
    have "?a < of_int ?n + 1" by linarith
    then have "?a < 2 powr of_int (bitlen ?n)" using i(2) by linarith
    then have hi: "?a < 2 powr of_int (bitlen ?n - 1 + 1)" by simp
    have "\<lfloor>log 2 ?a\<rfloor> = bitlen ?n - 1"
      using floor_log_eq_powr_iff [OF pos, of 2 "bitlen ?n - 1"] lo hi by simp
    then show ?thesis using True by (simp add: binade_def Let_def)
  next
    case False
    let ?y = "1 / ?a"
    let ?n = "\<lceil>?y\<rceil> - 1"
    have y1: "1 < ?y" using False pos by simp
    then have "1 < \<lceil>?y\<rceil>" by (simp add: less_ceiling_iff)
    then have n1: "1 \<le> ?n" by simp
    note i = int_binade [OF n1]
    have "of_int ?n < ?y" using ceiling_correct [of ?y] by simp
    then have a: "2 powr of_int (bitlen ?n - 1) < ?y" using i(1) by linarith
    have "?y \<le> of_int ?n + 1" using ceiling_correct [of ?y] by simp
    then have b: "?y \<le> 2 powr of_int (bitlen ?n)" using i(2) by linarith
    have p: "0 < (2::real) powr of_int (bitlen ?n)" "0 < (2::real) powr of_int (bitlen ?n - 1)" by simp_all
    have lo: "2 powr of_int (- bitlen ?n) \<le> ?a"
    proof -
      have "1 \<le> 2 powr of_int (bitlen ?n) * ?a"
        using b pos by (simp only: pos_divide_le_eq)
      then have "1 / 2 powr of_int (bitlen ?n) \<le> ?a"
        using p(1) by (simp only: pos_divide_le_eq mult.commute)
      then show ?thesis by (simp add: powr_minus_divide)
    qed
    have hi: "?a < 2 powr of_int (- bitlen ?n + 1)"
    proof -
      have "2 powr of_int (bitlen ?n - 1) * ?a < 1"
        using a pos by (simp only: pos_less_divide_eq)
      then have "?a < 1 / 2 powr of_int (bitlen ?n - 1)"
        using p(2) by (simp only: pos_less_divide_eq mult.commute)
      moreover have "1 / (2::real) powr of_int (bitlen ?n - 1) = 2 powr of_int (- bitlen ?n + 1)"
        using powr_minus_divide [of "2::real" "of_int (bitlen ?n - 1)"] by simp
      ultimately show ?thesis by simp
    qed
    have "\<lfloor>log 2 ?a\<rfloor> = - bitlen ?n"
      using floor_log_eq_powr_iff [OF pos, of 2 "- bitlen ?n"] lo hi by simp
    then show ?thesis using False by (simp add: binade_def Let_def)
  qed
qed

lemma double_round_log:
  "double_round x =
     (if x = 0 then 0
      else let q = max (\<lfloor>log 2 \<bar>x\<bar>\<rfloor> - 52) (- 1074)
           in of_int (round_half_even (x / 2 powr of_int q)) * 2 powr of_int q)"
  by (simp add: double_round_def binade_log Let_def powr_real_of_int')

lemma round_half_even_of_int: "round_half_even (of_int z) = z"
  by (simp add: round_half_even_def)

lemma round_half_even_nonneg: "0 \<le> y \<Longrightarrow> 0 \<le> round_half_even y"
  by (simp add: round_half_even_def Let_def)

lemma double_round_nonneg: "0 \<le> x \<Longrightarrow> 0 \<le> double_round x"
  by (simp add: double_round_log Let_def round_half_even_nonneg)

lemma double_round_exact:
  assumes x: "x = of_int m * 2 powr of_int e" and m: "\<bar>m\<bar> < 2 ^ 53" and e: "- 1074 \<le> e"
  shows "double_round x = x"
proof (cases "x = 0")
  case True
  then show ?thesis by (simp add: double_round_log)
next
  case False
  then have m0: "m \<noteq> 0" using x by auto
  define q where "q = max (\<lfloor>log 2 \<bar>x\<bar>\<rfloor> - 52) (- 1074)"
  have "\<bar>x\<bar> = of_int \<bar>m\<bar> * 2 powr of_int e"
    using x by (simp add: abs_mult)
  also have "\<dots> < 2 ^ 53 * 2 powr of_int e"
  proof -
    have "(of_int \<bar>m\<bar> :: real) < of_int (2 ^ 53)" using m by (simp only: of_int_less_iff)
    then show ?thesis by simp
  qed
  also have "\<dots> = 2 powr (53 + of_int e)"
    by (simp add: powr_add)
  finally have "\<bar>x\<bar> < 2 powr (53 + of_int e)" .
  then have "log 2 \<bar>x\<bar> < 53 + of_int e"
    using False by (simp add: log_less_iff)
  then have "\<lfloor>log 2 \<bar>x\<bar>\<rfloor> < 53 + e"
    by (simp add: floor_less_iff)
  then have qe: "q \<le> e" using e by (simp add: q_def)
  define k where "k = nat (e - q)"
  have ek: "of_int e = of_int q + real k" using qe by (simp add: k_def)
  have "x / 2 powr of_int q = of_int m * (2 powr of_int e / 2 powr of_int q)"
    using x by simp
  also have "2 powr of_int e / 2 powr of_int q = (2::real) ^ k"
    by (simp add: ek powr_add powr_realpow)
  finally have y: "x / 2 powr of_int q = of_int (m * 2 ^ k)" by simp
  have "double_round x = of_int (round_half_even (x / 2 powr of_int q)) * 2 powr of_int q"
    using False by (simp add: double_round_log q_def Let_def)
  also have "\<dots> = of_int (m * 2 ^ k) * 2 powr of_int q"
    by (simp only: y round_half_even_of_int)
  also have "\<dots> = of_int m * (2 ^ k * 2 powr of_int q)" by simp
  also have "2 ^ k * 2 powr of_int q = (2::real) powr of_int e"
    by (simp add: ek powr_add powr_realpow)
  finally show ?thesis using x by simp
qed

lemma double_round_int: "\<bar>z\<bar> < 2 ^ 53 \<Longrightarrow> double_round (of_int z) = of_int z"
  by (rule double_round_exact [of _ z 0]) simp_all

lemma double_round_halves: "\<bar>z\<bar> < 2 ^ 53 \<Longrightarrow> double_round (of_int z / 2) = of_int z / 2"
  by (rule double_round_exact [of _ z "- 1"]) (simp_all add: powr_neg_one)

lemma exact_int_floor: "exact_int x \<Longrightarrow> x = of_int \<lfloor>x\<rfloor> \<and> \<bar>\<lfloor>x\<rfloor>\<bar> \<le> 2 ^ 51"
proof -
  assume a: "exact_int x"
  then have eq: "x = of_int \<lfloor>x\<rfloor>" unfolding exact_int_def by auto
  have "\<bar>x\<bar> \<le> 2 ^ 51" using a unfolding exact_int_def by auto
  then have "\<bar>(of_int \<lfloor>x\<rfloor> :: real)\<bar> \<le> of_int (2 ^ 51)" using eq by simp
  then have "\<bar>\<lfloor>x\<rfloor>\<bar> \<le> 2 ^ 51" by (simp only: of_int_abs [symmetric] of_int_le_iff)
  then show ?thesis using eq by simp
qed

lemma double_round_diff:
  assumes "exact_int a" "exact_int b"
  shows "double_round (a - b) = a - b"
proof -
  from exact_int_floor [OF assms(1)] exact_int_floor [OF assms(2)]
  have a: "a = of_int \<lfloor>a\<rfloor>" "\<bar>\<lfloor>a\<rfloor>\<bar> \<le> 2 ^ 51" and b: "b = of_int \<lfloor>b\<rfloor>" "\<bar>\<lfloor>b\<rfloor>\<bar> \<le> 2 ^ 51"
    by simp_all
  have "\<bar>\<lfloor>a\<rfloor> - \<lfloor>b\<rfloor>\<bar> < 2 ^ 53" using a(2) b(2) by simp
  then have "double_round (of_int (\<lfloor>a\<rfloor> - \<lfloor>b\<rfloor>)) = of_int (\<lfloor>a\<rfloor> - \<lfloor>b\<rfloor>)"
    by (rule double_round_int)
  then show ?thesis using a(1) b(1) by (metis of_int_diff)
qed

lemma double_round_sum:
  assumes "exact_int a" "exact_int b"
  shows "double_round (a + b) = a + b"
proof -
  from exact_int_floor [OF assms(1)] exact_int_floor [OF assms(2)]
  have a: "a = of_int \<lfloor>a\<rfloor>" "\<bar>\<lfloor>a\<rfloor>\<bar> \<le> 2 ^ 51" and b: "b = of_int \<lfloor>b\<rfloor>" "\<bar>\<lfloor>b\<rfloor>\<bar> \<le> 2 ^ 51"
    by simp_all
  have "\<bar>\<lfloor>a\<rfloor> + \<lfloor>b\<rfloor>\<bar> < 2 ^ 53" using a(2) b(2) by simp
  then have "double_round (of_int (\<lfloor>a\<rfloor> + \<lfloor>b\<rfloor>)) = of_int (\<lfloor>a\<rfloor> + \<lfloor>b\<rfloor>)"
    by (rule double_round_int)
  then show ?thesis using a(1) b(1) by (metis of_int_add)
qed

lemma exact_int_small: "exact_int 1" "exact_int 2"
  by (simp_all add: exact_int_def)

lemma double_round_three_halves:
  assumes "\<bar>3 * z\<bar> < 2 ^ 53"
  shows "double_round (of_int z * 3 / 2) = of_int z * 3 / 2"
proof -
  have "double_round (of_int (3 * z) / 2) = of_int (3 * z) / 2"
    using assms by (rule double_round_halves)
  moreover have "of_int (3 * z) / 2 = (of_int z :: real) * 3 / 2" by simp
  ultimately show ?thesis by (simp only:)
qed

lemma double_round_scale:
  assumes "exact_int c"
  shows "double_round (c * 3 / 2) = c * 3 / 2"
proof -
  from exact_int_floor [OF assms]
  have c: "c = of_int \<lfloor>c\<rfloor>" and b: "\<bar>\<lfloor>c\<rfloor>\<bar> \<le> 2 ^ 51" by simp_all
  have "\<bar>3 * \<lfloor>c\<rfloor>\<bar> < 2 ^ 53" using b by simp
  then have "double_round (of_int \<lfloor>c\<rfloor> * 3 / 2) = of_int \<lfloor>c\<rfloor> * 3 / 2"
    by (rule double_round_three_halves)
  then show ?thesis using c by metis
qed

text \<open>
  The rounding of a number of a known binade: with \<open>2^e \<le> \<bar>x\<bar> < 2^(e+1)\<close> the result
  is the multiple of \<open>2^(e-52)\<close> nearest to \<open>x\<close>.
\<close>

lemma double_round_eval:
  assumes "2 powr of_int e \<le> \<bar>x\<bar>" "\<bar>x\<bar> < 2 powr of_int (e + 1)" "- 1022 \<le> e"
    and "u = 2 powr of_int (e - 52)"
  shows "double_round x = of_int (round_half_even (x / u)) * u"
proof -
  have pos: "0 < \<bar>x\<bar>" using assms(1) by (smt (verit) powr_gt_zero)
  then have x0: "x \<noteq> 0" by simp
  have "of_int e \<le> log 2 \<bar>x\<bar>" using assms(1) pos by (simp add: le_log_iff)
  moreover have "log 2 \<bar>x\<bar> < of_int e + 1" using assms(2) pos by (simp add: log_less_iff)
  ultimately have "\<lfloor>log 2 \<bar>x\<bar>\<rfloor> = e" by (simp add: floor_unique)
  then have "max (\<lfloor>log 2 \<bar>x\<bar>\<rfloor> - 52) (- 1074) = e - 52" using assms(3) by simp
  then show ?thesis using x0 by (simp add: double_round_log Let_def assms(4))
qed









lemma double_round_costly: "double_round 9120189515751963 = 9120189515751964"
proof -
  have "double_round 9120189515751963 =
          of_int (round_half_even (9120189515751963 / 2)) * 2"
    by (rule double_round_eval [where e = 53]) simp_all
  moreover have "round_half_even (9120189515751963 / 2) = 4560094757875982"
    by (simp add: round_half_even_def Let_def)
  ultimately show ?thesis by simp
qed


subsection \<open>Buying an upgrade\<close>

text \<open>
  Where the lines of code, the stat and its cost are integers of magnitude at most
  \<open>2^51\<close>, the purchase in doubles is the purchase in exact arithmetic.
\<close>

lemma buyUpgrade_double_exact:
  assumes "exact_int (Resources.linesOfCode (resources (gameState m)))"
    and "exact_int (cost_at k (upgradeCosts (gameState m)))"
    and "exact_int (stat_at k (stats (gameState m)))"
  shows "buyUpgrade_double k m = buyUpgrade k m"
  using assms
  by (cases k)
    (simp_all add: buyUpgrade_double_def buyUpgrade_def Let_def double_round_diff
      double_round_scale double_round_sum exact_int_small)

text \<open>
  Claim C2, as the code has it. For every state and every stat key, \<^verbatim>\<open>buyUpgrade\<close>
  succeeds if and only if the lines of code in hand are at least the current cost of that
  stat; on failure it reports failure and the whole manager is as it was; on success the
  lines of code stay at or above zero. In every state in which the lines of code, the
  stat and its cost are integers of magnitude at most \<open>2^51\<close>, a successful purchase
  takes exactly the cost off the lines of code, raises the stat by 1 for the hand speed
  and by 2 for the two others, and sets the cost of that stat to the floor of one and a
  half times the old cost.
\<close>

theorem buyUpgrade_affordable:
  "(fst (buyUpgrade_double k m) \<longleftrightarrow>
      cost_at k (upgradeCosts (gameState m)) \<le> Resources.linesOfCode (resources (gameState m)))
   \<and> (\<not> fst (buyUpgrade_double k m) \<longrightarrow> snd (buyUpgrade_double k m) = m)
   \<and> (fst (buyUpgrade_double k m) \<longrightarrow>
        0 \<le> Resources.linesOfCode (resources (gameState (snd (buyUpgrade_double k m)))))
   \<and> (exact_int (Resources.linesOfCode (resources (gameState m)))
        \<and> exact_int (cost_at k (upgradeCosts (gameState m)))
        \<and> exact_int (stat_at k (stats (gameState m))) \<longrightarrow>
        buyUpgrade_double k m = buyUpgrade k m
        \<and> (fst (buyUpgrade_double k m) \<longrightarrow>
             Resources.linesOfCode (resources (gameState (snd (buyUpgrade_double k m)))) =
               Resources.linesOfCode (resources (gameState m)) - cost_at k (upgradeCosts (gameState m))
           \<and> stat_at k (stats (gameState (snd (buyUpgrade_double k m)))) =
               stat_at k (stats (gameState m)) + (if k = HandSpeed then 1 else 2)
           \<and> cost_at k (upgradeCosts (gameState (snd (buyUpgrade_double k m)))) =
               of_int \<lfloor>cost_at k (upgradeCosts (gameState m)) * 3 / 2\<rfloor>))"
proof (intro conjI impI)
  show "fst (buyUpgrade_double k m) \<longleftrightarrow>
      cost_at k (upgradeCosts (gameState m)) \<le> Resources.linesOfCode (resources (gameState m))"
    by (simp add: buyUpgrade_double_def Let_def)
next
  assume "\<not> fst (buyUpgrade_double k m)"
  then show "snd (buyUpgrade_double k m) = m"
    by (cases "cost_at k (upgradeCosts (gameState m)) \<le> Resources.linesOfCode (resources (gameState m))")
      (simp_all add: buyUpgrade_double_def Let_def)
next
  assume "fst (buyUpgrade_double k m)"
  then have le: "cost_at k (upgradeCosts (gameState m)) \<le> Resources.linesOfCode (resources (gameState m))"
    by (cases "cost_at k (upgradeCosts (gameState m)) \<le> Resources.linesOfCode (resources (gameState m))")
      (simp_all add: buyUpgrade_double_def Let_def)
  then have "0 \<le> Resources.linesOfCode (resources (gameState m)) - cost_at k (upgradeCosts (gameState m))"
    by simp
  then have "0 \<le> double_round
       (Resources.linesOfCode (resources (gameState m)) - cost_at k (upgradeCosts (gameState m)))"
    by (rule double_round_nonneg)
  then show "0 \<le> Resources.linesOfCode (resources (gameState (snd (buyUpgrade_double k m))))"
    using le by (simp add: buyUpgrade_double_def Let_def)
next
  assume h: "exact_int (Resources.linesOfCode (resources (gameState m)))
        \<and> exact_int (cost_at k (upgradeCosts (gameState m)))
        \<and> exact_int (stat_at k (stats (gameState m)))"
  then show e: "buyUpgrade_double k m = buyUpgrade k m"
    by (simp add: buyUpgrade_double_exact)
  assume s: "fst (buyUpgrade_double k m)"
  then have le: "cost_at k (upgradeCosts (gameState m)) \<le> Resources.linesOfCode (resources (gameState m))"
    by (cases "cost_at k (upgradeCosts (gameState m)) \<le> Resources.linesOfCode (resources (gameState m))")
      (simp_all add: buyUpgrade_double_def Let_def)
  show "Resources.linesOfCode (resources (gameState (snd (buyUpgrade_double k m)))) =
               Resources.linesOfCode (resources (gameState m)) - cost_at k (upgradeCosts (gameState m))"
    unfolding e using le by (simp add: buyUpgrade_def Let_def)
  show "stat_at k (stats (gameState (snd (buyUpgrade_double k m)))) =
               stat_at k (stats (gameState m)) + (if k = HandSpeed then 1 else 2)"
    unfolding e using le by (cases k) (simp_all add: buyUpgrade_def Let_def)
  show "cost_at k (upgradeCosts (gameState (snd (buyUpgrade_double k m)))) =
               of_int \<lfloor>cost_at k (upgradeCosts (gameState m)) * 3 / 2\<rfloor>"
    unfolding e using le by (cases k) (simp_all add: buyUpgrade_def Let_def Math_floor_def)
qed

text \<open>
  With 60 lines of code the hand speed is bought for 50: 10 lines are left, the hand
  speed is 2 and its cost 75. With 29 lines of code the algorithm upgrade, which costs
  30, is refused and nothing changes.
\<close>

lemma funded_exact:
  "exact_int (Resources.linesOfCode (resources (gameState (funded 60))))"
  "exact_int (cost_at HandSpeed (upgradeCosts (gameState (funded 60))))"
  "exact_int (stat_at HandSpeed (stats (gameState (funded 60))))"
  "exact_int (Resources.linesOfCode (resources (gameState (funded 29))))"
  "exact_int (cost_at Algorithm (upgradeCosts (gameState (funded 29))))"
  "exact_int (stat_at Algorithm (stats (gameState (funded 29))))"
  by (simp_all add: exact_int_def funded_def initial_def createDefaultGameState_def)

theorem buyUpgrade_affordable_witness:
  "exact_int (Resources.linesOfCode (resources (gameState (funded 60))))
   \<and> exact_int (cost_at HandSpeed (upgradeCosts (gameState (funded 60))))
   \<and> exact_int (stat_at HandSpeed (stats (gameState (funded 60))))
   \<and> fst (buyUpgrade_double HandSpeed (funded 60))
   \<and> Resources.linesOfCode (resources (gameState (snd (buyUpgrade_double HandSpeed (funded 60))))) = 10
   \<and> Stats.handSpeed (stats (gameState (snd (buyUpgrade_double HandSpeed (funded 60))))) = 2
   \<and> UpgradeCosts.handSpeed (upgradeCosts (gameState (snd (buyUpgrade_double HandSpeed (funded 60))))) = 75
   \<and> \<not> fst (buyUpgrade_double Algorithm (funded 29))
   \<and> snd (buyUpgrade_double Algorithm (funded 29)) = funded 29"
proof -
  have a: "cost_at HandSpeed (upgradeCosts (gameState (funded 60)))
             \<le> Resources.linesOfCode (resources (gameState (funded 60)))"
    and b: "\<not> cost_at Algorithm (upgradeCosts (gameState (funded 29)))
             \<le> Resources.linesOfCode (resources (gameState (funded 29)))"
    and v: "Resources.linesOfCode (resources (gameState (funded 60))) = 60"
      "UpgradeCosts.handSpeed (upgradeCosts (gameState (funded 60))) = 50"
      "Stats.handSpeed (stats (gameState (funded 60))) = 1"
    by (simp_all add: funded_def initial_def createDefaultGameState_def)
  note rich = buyUpgrade_affordable [of HandSpeed "funded 60"]
  note poor = buyUpgrade_affordable [of Algorithm "funded 29"]
  have s: "fst (buyUpgrade_double HandSpeed (funded 60))" using rich a by blast
  have "Resources.linesOfCode (resources (gameState (snd (buyUpgrade_double HandSpeed (funded 60))))) =
          Resources.linesOfCode (resources (gameState (funded 60)))
            - cost_at HandSpeed (upgradeCosts (gameState (funded 60)))
      \<and> stat_at HandSpeed (stats (gameState (snd (buyUpgrade_double HandSpeed (funded 60))))) =
          stat_at HandSpeed (stats (gameState (funded 60))) + (if HandSpeed = HandSpeed then 1 else 2)
      \<and> cost_at HandSpeed (upgradeCosts (gameState (snd (buyUpgrade_double HandSpeed (funded 60))))) =
          of_int \<lfloor>cost_at HandSpeed (upgradeCosts (gameState (funded 60))) * 3 / 2\<rfloor>"
    using rich s funded_exact(1,2,3) by blast
  then have r: "Resources.linesOfCode (resources (gameState (snd (buyUpgrade_double HandSpeed (funded 60))))) = 10"
    "Stats.handSpeed (stats (gameState (snd (buyUpgrade_double HandSpeed (funded 60))))) = 2"
    "UpgradeCosts.handSpeed (upgradeCosts (gameState (snd (buyUpgrade_double HandSpeed (funded 60))))) = 75"
    by (simp_all add: v)
  have f: "\<not> fst (buyUpgrade_double Algorithm (funded 29))" using poor b by blast
  then have u: "snd (buyUpgrade_double Algorithm (funded 29)) = funded 29" using poor by blast
  show ?thesis using funded_exact(1,2,3) s r f u by blast
qed

text \<open>
  Without the bound the new cost need not be the floor of one and a half times the old
  one: a hand speed that costs 6080126343834642 is bought, and the cost stored is
  9120189515751964, the double nearest to the product, while the floor of the product is
  9120189515751963.
\<close>

theorem buyUpgrade_affordable_counterexample:
  "fst (buyUpgrade_double HandSpeed costly)
   \<and> cost_at HandSpeed (upgradeCosts (gameState costly)) = 6080126343834642
   \<and> cost_at HandSpeed (upgradeCosts (gameState (snd (buyUpgrade_double HandSpeed costly)))) =
       9120189515751964
   \<and> of_int \<lfloor>cost_at HandSpeed (upgradeCosts (gameState costly)) * 3 / 2\<rfloor> = (9120189515751963 :: real)"
  by (simp add: buyUpgrade_double_def Let_def costly_def initial_def createDefaultGameState_def
      double_round_costly Math_floor_def)

subsection \<open>Levelling up\<close>

text \<open>What one round of the loop does to the character.\<close>

lemma checkLevelUp_body_character:
  "character (gameState (checkLevelUp_body m)) =
     (character (gameState m))
       \<lparr>Character.experience :=
          Character.experience (character (gameState m)) - experienceToNext (character (gameState m)),
        Character.level := Character.level (character (gameState m)) + 1,
        experienceToNext := 100 + Character.level (character (gameState m)) * 50\<rparr>"
  by (simp add: checkLevelUp_body_def Let_def calculateExperienceForNextLevel_def)

text \<open>When the loop stops, the experience is below the threshold.\<close>

lemma checkLevelUp_below:
  "Character.experience (character (gameState (checkLevelUp m)))
     < experienceToNext (character (gameState (checkLevelUp m)))"
proof (induction m rule: checkLevelUp.induct)
  case (1 m)
  show ?case
  proof (cases "experienceToNext (character (gameState m)) \<le> Character.experience (character (gameState m))")
    case True
    then show ?thesis using 1 by (simp add: checkLevelUp.simps [of m])
  next
    case False
    then show ?thesis by (simp add: checkLevelUp.simps [of m])
  qed
qed





text \<open>One round and no more, when what is left is below the next threshold.\<close>

lemma checkLevelUp_once:
  assumes "experienceToNext (character (gameState m)) \<le> Character.experience (character (gameState m))"
    and "Character.experience (character (gameState m)) - experienceToNext (character (gameState m))
           < 100 + Character.level (character (gameState m)) * 50"
  shows "checkLevelUp m = checkLevelUp_body m"
proof -
  have "checkLevelUp m = checkLevelUp (checkLevelUp_body m)"
    using assms(1) by (simp add: checkLevelUp.simps [of m])
  also have "\<dots> = checkLevelUp_body m"
    using assms(2) by (simp add: checkLevelUp.simps [of "checkLevelUp_body m"] checkLevelUp_body_character)
  finally show ?thesis .
qed

text \<open>
  Claim C5, as the code has it. From a state at level 1 with experience 95 and threshold
  100, a grant of 150 experience followed by \<^verbatim>\<open>checkLevelUp\<close> gives exactly one
  level (level 2), leaves experience \<open>95 + 150 - 100 = 145\<close> and sets the threshold
  to 150. The same holds when the grant is the reward of a defeated bug.
\<close>

theorem level_up_scenario:
  assumes "Character.level (character (gameState m)) = 1"
    and "Character.experience (character (gameState m)) = 95"
    and "experienceToNext (character (gameState m)) = 100"
  shows "Character.level (character (gameState (checkLevelUp (gain_experience 150 m)))) = 2
    \<and> Character.experience (character (gameState (checkLevelUp (gain_experience 150 m)))) = 145
    \<and> experienceToNext (character (gameState (checkLevelUp (gain_experience 150 m)))) = 150
    \<and> (Reward.experience (reward bug) = 150 \<longrightarrow>
         Character.level (character (gameState (checkLevelUp (defeatBug bug m)))) = 2
       \<and> Character.experience (character (gameState (checkLevelUp (defeatBug bug m)))) = 145
       \<and> experienceToNext (character (gameState (checkLevelUp (defeatBug bug m)))) = 150)"
proof -
  have g: "checkLevelUp (gain_experience 150 m) = checkLevelUp_body (gain_experience 150 m)"
    by (rule checkLevelUp_once) (simp_all add: gain_experience_def assms)
  have d: "checkLevelUp (defeatBug bug m) = checkLevelUp_body (defeatBug bug m)"
    if "Reward.experience (reward bug) = 150"
    by (rule checkLevelUp_once) (simp_all add: defeatBug_def Let_def assms that)
  show ?thesis
    using g d by (simp add: checkLevelUp_body_character gain_experience_def defeatBug_def Let_def assms)
qed

theorem level_up_scenario_witness:
  "Character.level (character (gameState (with_experience 95))) = 1
   \<and> Character.experience (character (gameState (with_experience 95))) = 95
   \<and> experienceToNext (character (gameState (with_experience 95))) = 100
   \<and> Character.level (character (gameState (checkLevelUp (gain_experience 150 (with_experience 95))))) = 2
   \<and> Character.experience (character (gameState (checkLevelUp (gain_experience 150 (with_experience 95))))) = 145
   \<and> experienceToNext (character (gameState (checkLevelUp (gain_experience 150 (with_experience 95))))) = 150
   \<and> Reward.experience (reward bounty_bug) = 150
   \<and> Character.level (character (gameState (checkLevelUp (defeatBug bounty_bug (with_experience 95))))) = 2
   \<and> Character.experience (character (gameState (checkLevelUp (defeatBug bounty_bug (with_experience 95))))) = 145
   \<and> experienceToNext (character (gameState (checkLevelUp (defeatBug bounty_bug (with_experience 95))))) = 150"
proof -
  have h: "Character.level (character (gameState (with_experience 95))) = 1"
    "Character.experience (character (gameState (with_experience 95))) = 95"
    "experienceToNext (character (gameState (with_experience 95))) = 100"
    by (simp_all add: with_experience_def initial_def createDefaultGameState_def)
  have b: "Reward.experience (reward bounty_bug) = 150"
    by (simp add: bounty_bug_def)
  show ?thesis using h b level_up_scenario [OF h, of bounty_bug] by simp
qed

text \<open>
  The experience left is not 45: the claim as written fails at the default state with
  experience 95.
\<close>

theorem level_up_scenario_counterexample:
  "Character.experience (character (gameState (with_experience 95))) = 95
   \<and> experienceToNext (character (gameState (with_experience 95))) = 100
   \<and> Character.experience (character (gameState (checkLevelUp (gain_experience 150 (with_experience 95))))) \<noteq> 45"
  by (simp add: checkLevelUp.simps checkLevelUp_body_def with_experience_def gain_experience_def initial_def
        createDefaultGameState_def calculateExperienceForNextLevel_def Let_def)

subsection \<open>What each operation leaves alone\<close>

lemma checkLevelUp_body_frame:
  "resources (gameState (checkLevelUp_body m)) = resources (gameState m)
   \<and> upgradeCosts (gameState (checkLevelUp_body m)) = upgradeCosts (gameState m)
   \<and> equipment (gameState (checkLevelUp_body m)) = equipment (gameState m)
   \<and> statistics (gameState (checkLevelUp_body m)) = statistics (gameState m)
   \<and> battle (gameState (checkLevelUp_body m)) = battle (gameState m)
   \<and> settings (gameState (checkLevelUp_body m)) = settings (gameState m)
   \<and> globalState (checkLevelUp_body m) = globalState m"
  by (simp add: checkLevelUp_body_def Let_def)

lemma checkLevelUp_frame:
  "resources (gameState (checkLevelUp m)) = resources (gameState m)
   \<and> upgradeCosts (gameState (checkLevelUp m)) = upgradeCosts (gameState m)
   \<and> equipment (gameState (checkLevelUp m)) = equipment (gameState m)
   \<and> statistics (gameState (checkLevelUp m)) = statistics (gameState m)
   \<and> battle (gameState (checkLevelUp m)) = battle (gameState m)
   \<and> settings (gameState (checkLevelUp m)) = settings (gameState m)
   \<and> globalState (checkLevelUp m) = globalState m"
proof (induction m rule: checkLevelUp.induct)
  case (1 m)
  show ?case
  proof (cases "experienceToNext (character (gameState m)) \<le> Character.experience (character (gameState m))")
    case True
    then show ?thesis
      using 1 checkLevelUp_body_frame [of m] by (simp add: checkLevelUp.simps [of m])
  next
    case False
    then show ?thesis by (simp add: checkLevelUp.simps [of m])
  qed
qed

lemma defeatBug_frame:
  "upgradeCosts (gameState (defeatBug bug m)) = upgradeCosts (gameState m)
   \<and> stats (gameState (defeatBug bug m)) = stats (gameState m)
   \<and> equipment (gameState (defeatBug bug m)) = equipment (gameState m)
   \<and> settings (gameState (defeatBug bug m)) = settings (gameState m)
   \<and> globalState (defeatBug bug m) = globalState m"
  by (simp add: defeatBug_def Let_def)

lemma processBattle_frame:
  "upgradeCosts (gameState (processBattle m)) = upgradeCosts (gameState m)
   \<and> stats (gameState (processBattle m)) = stats (gameState m)
   \<and> equipment (gameState (processBattle m)) = equipment (gameState m)
   \<and> settings (gameState (processBattle m)) = settings (gameState m)
   \<and> globalState (processBattle m) = globalState m"
  by (simp add: processBattle_def defeatBug_frame Let_def split: option.splits)

lemma spawnRandomBug_frame:
  "upgradeCosts (gameState (spawnRandomBug r m)) = upgradeCosts (gameState m)
   \<and> character (gameState (spawnRandomBug r m)) = character (gameState m)
   \<and> resources (gameState (spawnRandomBug r m)) = resources (gameState m)
   \<and> stats (gameState (spawnRandomBug r m)) = stats (gameState m)
   \<and> equipment (gameState (spawnRandomBug r m)) = equipment (gameState m)
   \<and> statistics (gameState (spawnRandomBug r m)) = statistics (gameState m)
   \<and> settings (gameState (spawnRandomBug r m)) = settings (gameState m)
   \<and> globalState (spawnRandomBug r m) = globalState m
   \<and> shown (spawnRandomBug r m) = shown m"
  by (simp add: spawnRandomBug_def Let_def)

lemma updateGameState_upgradeCosts:
  "upgradeCosts (gameState (updateGameState r1 r2 m)) = upgradeCosts (gameState m)"
  by (simp add: updateGameState_def Let_def saveGameState_def checkLevelUp_frame
      spawnRandomBug_frame processBattle_frame)

lemma onEditorInteraction_upgradeCosts:
  "upgradeCosts (gameState (onEditorInteraction ty r m)) = upgradeCosts (gameState m)"
  by (cases ty) (simp_all add: onEditorInteraction_def Let_def)

lemma buyUpgrade_cost:
  "cost_at k (upgradeCosts (gameState (snd (buyUpgrade k' m)))) =
     (if k' = k \<and> fst (buyUpgrade k m) then scale_cost (cost_at k (upgradeCosts (gameState m)))
      else cost_at k (upgradeCosts (gameState m)))"
  by (cases k; cases k') (simp_all add: buyUpgrade_def Let_def scale_cost_def)

subsection \<open>Upgrade costs along a run\<close>

lemma run_cost:
  assumes "cost_at k (upgradeCosts (gameState m)) =
             (scale_cost ^^ n) (cost_at k (upgradeCosts createDefaultGameState))"
  shows "cost_at k (upgradeCosts (gameState (run ops m))) =
           (scale_cost ^^ purchases k n ops m) (cost_at k (upgradeCosts createDefaultGameState))"
  using assms
proof (induction ops arbitrary: m n)
  case Nil
  then show ?case by simp
next
  case (Cons op ops)
  show ?case
  proof (cases op)
    case (Tick r1 r2)
    then show ?thesis using Cons.IH [of "updateGameState r1 r2 m" n] Cons.prems
      by (simp add: updateGameState_upgradeCosts)
  next
    case (Buy k')
    show ?thesis
    proof (cases "k' = k \<and> fst (buyUpgrade k m)")
      case True
      then have "cost_at k (upgradeCosts (gameState (snd (buyUpgrade k m)))) =
                   (scale_cost ^^ Suc n) (cost_at k (upgradeCosts createDefaultGameState))"
        using Cons.prems by (simp add: buyUpgrade_cost)
      from Cons.IH [OF this] show ?thesis using True Buy by simp
    next
      case False
      then have "cost_at k (upgradeCosts (gameState (snd (buyUpgrade k' m)))) =
                   (scale_cost ^^ n) (cost_at k (upgradeCosts createDefaultGameState))"
        using Cons.prems by (simp only: buyUpgrade_cost if_False)
      from Cons.IH [OF this] show ?thesis using False Buy by auto
    qed
  next
    case (Interact ty r)
    then show ?thesis using Cons.IH [of "onEditorInteraction ty r m" n] Cons.prems
      by (simp add: onEditorInteraction_upgradeCosts)
  next
    case Reset
    then show ?thesis using Cons.IH [of "resetGame m" 0]
      by (simp add: resetGame_def saveGameState_def)
  qed
qed

lemma scale_cost_early:
  "n \<le> 2 \<Longrightarrow> c \<in> {50, 30, 40} \<Longrightarrow> (scale_cost ^^ n) c = closed_form_cost c n"
proof -
  assume "n \<le> 2" "c \<in> {50, 30, 40}"
  then have "n = 0 \<or> n = 1 \<or> n = 2" by arith
  then show ?thesis using \<open>c \<in> {50, 30, 40}\<close>
    by (auto simp add: scale_cost_def closed_form_cost_def Math_floor_def numeral_2_eq_2 power2_eq_square)
qed

text \<open>
  As long as three times the cost is below \<open>2^53\<close> the product of the cost with
  \<^verbatim>\<open>1.5\<close> is a double, and the scaling of the source is the exact one. From an initial
  cost of at most 50 this is so for the first 79 purchases.
\<close>

lemma scale_cost_iterate_bounds:
  assumes "c = of_int z" "0 \<le> z"
  shows "\<exists>y. (scale_cost ^^ j) c = of_int y \<and> 0 \<le> y \<and> of_int y \<le> c * (3 / 2) ^ j"
proof (induction j)
  case 0
  then show ?case using assms by simp
next
  case (Suc j)
  then obtain y where y: "(scale_cost ^^ j) c = of_int y" "0 \<le> y" "of_int y \<le> c * (3 / 2) ^ j"
    by blast
  let ?y' = "\<lfloor>(of_int y :: real) * 3 / 2\<rfloor>"
  have a: "(scale_cost ^^ Suc j) c = of_int ?y'"
    by (simp add: y(1) scale_cost_def Math_floor_def)
  have b: "0 \<le> ?y'" using y(2) by simp
  have "of_int ?y' \<le> (of_int y :: real) * 3 / 2" by (rule of_int_floor_le)
  also have "\<dots> \<le> c * (3 / 2) ^ j * 3 / 2" using y(3) by simp
  finally have c: "of_int ?y' \<le> c * (3 / 2) ^ Suc j" by simp
  show ?case using a b c by blast
qed

lemma scale_cost_double_exact:
  assumes "\<bar>3 * y\<bar> < 2 ^ 53"
  shows "scale_cost_double (of_int y) = scale_cost (of_int y)"
  by (simp add: scale_cost_double_def scale_cost_def double_round_three_halves [OF assms])

lemma early_costs_small:
  assumes "c = of_int z" "0 \<le> z" "z \<le> 50" "j \<le> 78"
  shows "\<exists>y. (scale_cost ^^ j) c = of_int y \<and> \<bar>3 * y\<bar> < 2 ^ 53"
proof -
  from scale_cost_iterate_bounds [OF assms(1,2), of j]
  obtain y where y: "(scale_cost ^^ j) c = of_int y" "0 \<le> y" "of_int y \<le> c * (3 / 2) ^ j"
    by blast
  have "(3 / 2 :: real) ^ j \<le> (3 / 2) ^ 78"
    using assms(4) by (intro power_increasing) simp_all
  moreover have "0 \<le> c" "c \<le> 50" using assms(1,2,3) by simp_all
  ultimately have "c * (3 / 2) ^ j \<le> 50 * (3 / 2) ^ 78"
    by (intro mult_mono) simp_all
  then have "(of_int y :: real) \<le> 50 * (3 / 2) ^ 78" using y(3) by linarith
  also have "\<dots> < 2 ^ 53 / 3" by (simp add: field_simps)
  finally have "(of_int (3 * y) :: real) < of_int (2 ^ 53)" by simp
  then have "3 * y < 2 ^ 53" by (simp only: of_int_less_iff)
  then have "\<bar>3 * y\<bar> < 2 ^ 53" using y(2) by simp
  then show ?thesis using y(1) by blast
qed

lemma scale_cost_double_iterate:
  assumes "c = of_int z" "0 \<le> z" "z \<le> 50" "n \<le> 79"
  shows "(scale_cost_double ^^ n) c = (scale_cost ^^ n) c"
  using assms(4)
proof (induction n)
  case 0
  then show ?case by simp
next
  case (Suc n)
  then have ih: "(scale_cost_double ^^ n) c = (scale_cost ^^ n) c" and n: "n \<le> 78" by simp_all
  from early_costs_small [OF assms(1,2,3) n]
  obtain y where y: "(scale_cost ^^ n) c = of_int y" "\<bar>3 * y\<bar> < 2 ^ 53" by blast
  show ?case
    by (simp add: ih y(1) scale_cost_double_exact [OF y(2)])
qed

lemma default_costs:
  "cost_at k (upgradeCosts createDefaultGameState) =
     (case k of HandSpeed \<Rightarrow> 50 | Algorithm \<Rightarrow> 30 | Iteration \<Rightarrow> 40)"
  by (cases k) (simp_all add: createDefaultGameState_def)

lemma default_costs_int:
  "\<exists>z. cost_at k (upgradeCosts createDefaultGameState) = of_int z \<and> 0 \<le> z \<and> z \<le> 50"
proof (cases k)
  case HandSpeed
  then show ?thesis by (intro exI [of _ 50]) (simp add: createDefaultGameState_def)
next
  case Algorithm
  then show ?thesis by (intro exI [of _ 30]) (simp add: createDefaultGameState_def)
next
  case Iteration
  then show ?thesis by (intro exI [of _ 40]) (simp add: createDefaultGameState_def)
qed

lemma buyUpgrade_double_cost:
  "fst (buyUpgrade_double k s) \<Longrightarrow>
     cost_at k (upgradeCosts (gameState (snd (buyUpgrade_double k s)))) =
       scale_cost_double (cost_at k (upgradeCosts (gameState s)))"
  by (cases k) (simp_all add: buyUpgrade_double_def scale_cost_double_def Let_def split: if_splits)

text \<open>
  Claim C3, as the code has it. Starting from the default state (initial costs 50 for the
  hand speed, 30 for the algorithm, 40 for the iteration), after any sequence of public
  operations in which \<open>n \<le> 79\<close> purchases of a stat have succeeded since the state
  was last the default state, the cost of that stat is the initial cost with
  \<open>c \<mapsto> \<lfloor>c \<times> 1.5\<rfloor>\<close> applied \<open>n\<close> times: the floor is taken at every purchase.
  Up to there the scaling of the source, which rounds the product to a double before the
  floor and which every successful purchase applies to the cost, gives the same numbers
  as the exact one. For \<open>n \<le> 2\<close> the cost is \<open>\<lfloor>initialCost \<times> 1.5^n\<rfloor>\<close>.
\<close>

theorem upgrade_cost_iterated:
  assumes "gameState m = createDefaultGameState" and "purchases k 0 ops m \<le> 79"
  shows "cost_at k (upgradeCosts (gameState (run ops m))) =
           (scale_cost ^^ purchases k 0 ops m) (cost_at k (upgradeCosts createDefaultGameState))
         \<and> (scale_cost_double ^^ purchases k 0 ops m) (cost_at k (upgradeCosts createDefaultGameState)) =
           (scale_cost ^^ purchases k 0 ops m) (cost_at k (upgradeCosts createDefaultGameState))
         \<and> (fst (buyUpgrade_double k s) \<longrightarrow>
              cost_at k (upgradeCosts (gameState (snd (buyUpgrade_double k s)))) =
                scale_cost_double (cost_at k (upgradeCosts (gameState s))))
         \<and> cost_at k (upgradeCosts createDefaultGameState) =
           (case k of HandSpeed \<Rightarrow> 50 | Algorithm \<Rightarrow> 30 | Iteration \<Rightarrow> 40)
         \<and> (purchases k 0 ops m \<le> 2 \<longrightarrow>
              cost_at k (upgradeCosts (gameState (run ops m))) =
                closed_form_cost (cost_at k (upgradeCosts createDefaultGameState)) (purchases k 0 ops m))"
proof -
  have a: "cost_at k (upgradeCosts (gameState (run ops m))) =
           (scale_cost ^^ purchases k 0 ops m) (cost_at k (upgradeCosts createDefaultGameState))"
    by (rule run_cost) (simp add: assms(1))
  obtain z where z: "cost_at k (upgradeCosts createDefaultGameState) = of_int z" "0 \<le> z" "z \<le> 50"
    using default_costs_int [of k] by blast
  have d: "(scale_cost_double ^^ purchases k 0 ops m) (cost_at k (upgradeCosts createDefaultGameState)) =
           (scale_cost ^^ purchases k 0 ops m) (cost_at k (upgradeCosts createDefaultGameState))"
    by (rule scale_cost_double_iterate [OF z assms(2)])
  have "cost_at k (upgradeCosts createDefaultGameState) \<in> {50, 30, 40}"
    using default_costs [of k] by (cases k) simp_all
  then have e: "purchases k 0 ops m \<le> 2 \<Longrightarrow>
              cost_at k (upgradeCosts (gameState (run ops m))) =
                closed_form_cost (cost_at k (upgradeCosts createDefaultGameState)) (purchases k 0 ops m)"
    using a scale_cost_early by simp
  show ?thesis using a d default_costs [of k] e buyUpgrade_double_cost [of k s] by blast
qed

lemma two_purchases_run:
  "purchases Algorithm 0 two_algorithm_purchases initial = 2
   \<and> cost_at Algorithm (upgradeCosts (gameState (run two_algorithm_purchases initial))) = 67"
  by code_simp

lemma funded_algorithm:
  "fst (buyUpgrade_double Algorithm (funded 60))"
  "cost_at Algorithm (upgradeCosts (gameState (funded 60))) = 30"
  by (simp_all add: buyUpgrade_double_def Let_def funded_def initial_def createDefaultGameState_def)

theorem upgrade_cost_iterated_witness:
  "gameState initial = createDefaultGameState
   \<and> purchases Algorithm 0 two_algorithm_purchases initial = 2
   \<and> cost_at Algorithm (upgradeCosts (gameState (run two_algorithm_purchases initial))) = 67
   \<and> (scale_cost ^^ 2) 30 = 67
   \<and> (scale_cost_double ^^ 2) 30 = 67
   \<and> closed_form_cost 30 2 = 67
   \<and> fst (buyUpgrade_double Algorithm (funded 60))
   \<and> cost_at Algorithm (upgradeCosts (gameState (snd (buyUpgrade_double Algorithm (funded 60))))) = 45"
proof -
  have h: "gameState initial = createDefaultGameState" by (simp add: initial_def)
  have p: "purchases Algorithm 0 two_algorithm_purchases initial \<le> 79"
    using two_purchases_run by simp
  have c: "cost_at Algorithm (upgradeCosts createDefaultGameState) = 30"
    by (simp add: createDefaultGameState_def)
  note t = upgrade_cost_iterated [OF h p, of "funded 60"]
  have 1: "(scale_cost ^^ 2) 30 = 67" using t two_purchases_run c by metis
  have 2: "(scale_cost_double ^^ 2) 30 = (scale_cost ^^ 2) 30" using t two_purchases_run c by metis
  have 3: "closed_form_cost 30 2 = 67" using t two_purchases_run c by (metis order_refl)
  have 4: "cost_at Algorithm (upgradeCosts (gameState (snd (buyUpgrade_double Algorithm (funded 60))))) =
       scale_cost_double 30"
    using t funded_algorithm by metis
  have "scale_cost_double (of_int 30) = scale_cost (of_int 30)"
    by (rule scale_cost_double_exact) simp
  then have 5: "scale_cost_double 30 = 45"
    by (simp add: scale_cost_def Math_floor_def)
  show ?thesis using h two_purchases_run 1 2 3 4 5 funded_algorithm(1) by simp
qed

text \<open>
  After three purchases of the algorithm upgrade from the default state the cost is 100
  (30, 45, 67, 100), while \<open>\<lfloor>30 \<times> 1.5^3\<rfloor> = \<lfloor>101.25\<rfloor> = 101\<close>.
\<close>

lemma three_purchases_run:
  "purchases Algorithm 0 three_algorithm_purchases initial = 3
   \<and> cost_at Algorithm (upgradeCosts (gameState (run three_algorithm_purchases initial))) = 100"
  by code_simp

theorem upgrade_cost_closed_form_counterexample:
  "gameState initial = createDefaultGameState
   \<and> purchases Algorithm 0 three_algorithm_purchases initial = 3
   \<and> cost_at Algorithm (upgradeCosts (gameState (run three_algorithm_purchases initial))) = 100
   \<and> closed_form_cost (cost_at Algorithm (upgradeCosts createDefaultGameState)) 3 = 101"
  using three_purchases_run
  by (simp add: initial_def closed_form_cost_def Math_floor_def createDefaultGameState_def power3_eq_cube)

subsection \<open>The phases of a tick\<close>

text \<open>
  The source's tick is the composition of the phases: accrual, battle, spawn check,
  level-up check, conditional save.
\<close>

lemma calculateLocPerSecond_spec:
  "calculateLocPerSecond m = Stats.handSpeed (stats (gameState m)) * (1 + equipmentBonus_spec m)"
  by (simp add: calculateLocPerSecond_def equipmentBonus_spec_def Let_def)

lemma updateGameState_phases:
  "updateGameState r1 r2 m =
     autosave_spec (checkLevelUp (spawn_check_spec r1 r2 (processBattle (accrue_spec m))))"
proof -
  have "m\<lparr>gameState := (gameState m)
           \<lparr>resources := (resources (gameState m))
              \<lparr>Resources.linesOfCode :=
                 Resources.linesOfCode (resources (gameState m)) + calculateLocPerSecond m\<rparr>,
            statistics := (statistics (gameState m))
              \<lparr>totalLinesGenerated := totalLinesGenerated (statistics (gameState m)) + calculateLocPerSecond m,
               totalPlayTime := totalPlayTime (statistics (gameState m)) + 1\<rparr>\<rparr>\<rparr> = accrue_spec m"
    by (simp add: accrue_spec_def Let_def calculateLocPerSecond_spec)
  then show ?thesis
    by (simp add: updateGameState_def Let_def autosave_spec_def spawn_check_spec_def)
qed

lemma accrue_spec_fields:
  "character (gameState (accrue_spec m)) = character (gameState m)
   \<and> stats (gameState (accrue_spec m)) = stats (gameState m)
   \<and> upgradeCosts (gameState (accrue_spec m)) = upgradeCosts (gameState m)
   \<and> equipment (gameState (accrue_spec m)) = equipment (gameState m)
   \<and> battle (gameState (accrue_spec m)) = battle (gameState m)
   \<and> settings (gameState (accrue_spec m)) = settings (gameState m)
   \<and> globalState (accrue_spec m) = globalState m
   \<and> shown (accrue_spec m) = shown m
   \<and> Resources.linesOfCode (resources (gameState (accrue_spec m))) =
       Resources.linesOfCode (resources (gameState m)) + calculateLocPerSecond m
   \<and> Resources.bugFragments (resources (gameState (accrue_spec m))) =
       Resources.bugFragments (resources (gameState m))
   \<and> totalLinesGenerated (statistics (gameState (accrue_spec m))) =
       totalLinesGenerated (statistics (gameState m)) + calculateLocPerSecond m
   \<and> totalPlayTime (statistics (gameState (accrue_spec m))) =
       totalPlayTime (statistics (gameState m)) + 1
   \<and> totalBugsDefeated (statistics (gameState (accrue_spec m))) =
       totalBugsDefeated (statistics (gameState m))"
  by (simp add: accrue_spec_def Let_def calculateLocPerSecond_spec)

lemma autosave_spec_gameState: "gameState (autosave_spec m) = gameState m"
  by (simp add: autosave_spec_def saveGameState_def)

text \<open>The battle step: nothing without an encounter, else the blow and its outcome.\<close>

lemma processBattle_idle:
  "\<not> isInBattle (battle (gameState m)) \<or> currentBug (battle (gameState m)) = None \<Longrightarrow>
     processBattle m = m"
  by (auto simp add: processBattle_def Let_def split: option.splits)

lemma processBattle_active:
  assumes "isInBattle (battle (gameState m))" "currentBug (battle (gameState m)) = Some bug"
    and "d = max 1 (Stats.algorithm (stats (gameState m)) - Bug.iteration bug)"
  shows "processBattle m =
           (if health bug - d \<le> 0
            then defeatBug (bug\<lparr>health := health bug - d\<rparr>)
                   (m\<lparr>gameState := (gameState m)\<lparr>battle := (battle (gameState m))
                      \<lparr>currentBug := Some (bug\<lparr>health := health bug - d\<rparr>)\<rparr>\<rparr>\<rparr>)
            else m\<lparr>gameState := (gameState m)\<lparr>battle := (battle (gameState m))
                      \<lparr>currentBug := Some (bug\<lparr>health := health bug - d\<rparr>)\<rparr>\<rparr>\<rparr>)"
  unfolding processBattle_def Let_def assms(3) using assms(1,2) by simp

lemma processBattle_survives:
  assumes "isInBattle (battle (gameState m))" "currentBug (battle (gameState m)) = Some bug"
    and "d = max 1 (Stats.algorithm (stats (gameState m)) - Bug.iteration bug)"
    and "0 < health bug - d"
  shows "processBattle m =
           m\<lparr>gameState := (gameState m)\<lparr>battle := (battle (gameState m))
              \<lparr>currentBug := Some (bug\<lparr>health := health bug - d\<rparr>)\<rparr>\<rparr>\<rparr>"
proof -
  have "\<not> health bug - d \<le> 0" using assms(4) by simp
  then show ?thesis
    by (simp only: processBattle_active [OF assms(1,2,3)] if_False)
qed

lemma processBattle_defeats:
  assumes "isInBattle (battle (gameState m))" "currentBug (battle (gameState m)) = Some bug"
    and "d = max 1 (Stats.algorithm (stats (gameState m)) - Bug.iteration bug)"
    and "health bug - d \<le> 0"
  shows "gameState (processBattle m) =
           (gameState m)
             \<lparr>resources := (resources (gameState m))
                \<lparr>Resources.linesOfCode :=
                    Resources.linesOfCode (resources (gameState m)) + Reward.linesOfCode (reward bug),
                 Resources.bugFragments :=
                    Resources.bugFragments (resources (gameState m)) + (Reward.bugFragments (reward bug) +
                      of_int \<lfloor>Reward.bugFragments (reward bug) * Stats.iteration (stats (gameState m)) * 0.1\<rfloor>)\<rparr>,
              character := (character (gameState m))
                \<lparr>Character.experience :=
                    Character.experience (character (gameState m)) + Reward.experience (reward bug)\<rparr>,
              statistics := (statistics (gameState m))
                \<lparr>totalBugsDefeated := totalBugsDefeated (statistics (gameState m)) + 1\<rparr>,
              battle := (battle (gameState m))\<lparr>currentBug := None, isInBattle := False\<rparr>\<rparr>"
proof -
  have "processBattle m =
          defeatBug (bug\<lparr>health := health bug - d\<rparr>)
            (m\<lparr>gameState := (gameState m)\<lparr>battle := (battle (gameState m))
               \<lparr>currentBug := Some (bug\<lparr>health := health bug - d\<rparr>)\<rparr>\<rparr>\<rparr>)"
    using assms(4) by (simp only: processBattle_active [OF assms(1,2,3)] if_True)
  then show ?thesis by (simp add: defeatBug_def Let_def Math_floor_def)
qed

text \<open>What the level-up check does to the character depends on the character only.\<close>

lemma checkLevelUp_character_cong:
  "character (gameState m) = character (gameState m') \<Longrightarrow>
     character (gameState (checkLevelUp m)) = character (gameState (checkLevelUp m'))"
proof (induction m arbitrary: m' rule: checkLevelUp.induct)
  case (1 m)
  show ?case
  proof (cases "experienceToNext (character (gameState m)) \<le> Character.experience (character (gameState m))")
    case True
    then have "experienceToNext (character (gameState m')) \<le> Character.experience (character (gameState m'))"
      using "1.prems" by simp
    moreover have "character (gameState (checkLevelUp_body m)) = character (gameState (checkLevelUp_body m'))"
      using "1.prems" by (simp add: checkLevelUp_body_character)
    ultimately show ?thesis
      using "1.IH" [OF True] True by (simp add: checkLevelUp.simps [of m] checkLevelUp.simps [of m'])
  next
    case False
    then have "\<not> experienceToNext (character (gameState m')) \<le> Character.experience (character (gameState m'))"
      using "1.prems" by simp
    then show ?thesis
      using False "1.prems" by (simp add: checkLevelUp.simps [of m] checkLevelUp.simps [of m'])
  qed
qed


lemma after_battle_phase:
  "resources (gameState (updateGameState r1 r2 m)) = resources (gameState (processBattle (accrue_spec m)))"
  "statistics (gameState (updateGameState r1 r2 m)) = statistics (gameState (processBattle (accrue_spec m)))"
  "character (gameState (updateGameState r1 r2 m)) =
     character (gameState (checkLevelUp (processBattle (accrue_spec m))))"
  "battle (gameState (updateGameState r1 r2 m)) =
     battle (gameState (spawn_check_spec r1 r2 (processBattle (accrue_spec m))))"
proof -
  let ?mid = "processBattle (accrue_spec m)"
  have res: "resources (gameState (spawn_check_spec r1 r2 ?mid)) = resources (gameState ?mid)"
    and sta: "statistics (gameState (spawn_check_spec r1 r2 ?mid)) = statistics (gameState ?mid)"
    and cha: "character (gameState (spawn_check_spec r1 r2 ?mid)) = character (gameState ?mid)"
    by (simp_all add: spawn_check_spec_def spawnRandomBug_frame)
  show "resources (gameState (updateGameState r1 r2 m)) = resources (gameState ?mid)"
    by (simp add: updateGameState_phases autosave_spec_gameState checkLevelUp_frame res)
  show "statistics (gameState (updateGameState r1 r2 m)) = statistics (gameState ?mid)"
    by (simp add: updateGameState_phases autosave_spec_gameState checkLevelUp_frame sta)
  show "character (gameState (updateGameState r1 r2 m)) = character (gameState (checkLevelUp ?mid))"
    using checkLevelUp_character_cong [OF cha]
    by (simp add: updateGameState_phases autosave_spec_gameState)
  show "battle (gameState (updateGameState r1 r2 m)) = battle (gameState (spawn_check_spec r1 r2 ?mid))"
    by (simp add: updateGameState_phases autosave_spec_gameState checkLevelUp_frame)
qed





subsection \<open>Accrual\<close>










subsection \<open>Combat resolution\<close>





subsection \<open>The order of the phases\<close>

lemma phases_keep_settings:
  "settings (gameState (checkLevelUp (spawn_check_spec r1 r2 (processBattle (accrue_spec m))))) =
     settings (gameState m)
   \<and> globalState (checkLevelUp (spawn_check_spec r1 r2 (processBattle (accrue_spec m)))) =
     globalState m"
  by (simp add: checkLevelUp_frame spawn_check_spec_def spawnRandomBug_frame processBattle_frame
      accrue_spec_fields)

text \<open>
  Claim C9. For every state and every draw, the tick of the source is the composition of
  the phases in the order of the specification: accrual, combat resolution, spawn check,
  level-up check, conditional autosave. The state at the end of the tick is the one the
  level-up check returns, so its experience is below its threshold; with autosave on,
  the document saved by the tick is the document of that state, in which the experience
  of a kill of this tick is already turned into levels; with autosave off nothing is
  saved.
\<close>

theorem tick_in_order:
  "updateGameState r1 r2 m = tick_spec r1 r2 m
   \<and> gameState (updateGameState r1 r2 m) =
       gameState (checkLevelUp (spawn_check_spec r1 r2 (processBattle (accrue_spec m))))
   \<and> Character.experience (character (gameState (updateGameState r1 r2 m)))
       < experienceToNext (character (gameState (updateGameState r1 r2 m)))
   \<and> (autoSave (settings (gameState m)) \<longrightarrow>
        globalState (updateGameState r1 r2 m) =
          Some (json_of_GameState (gameState (updateGameState r1 r2 m))))
   \<and> (\<not> autoSave (settings (gameState m)) \<longrightarrow>
        globalState (updateGameState r1 r2 m) = globalState m)"
proof -
  let ?m5 = "checkLevelUp (spawn_check_spec r1 r2 (processBattle (accrue_spec m)))"
  have a: "updateGameState r1 r2 m = tick_spec r1 r2 m"
    by (simp add: updateGameState_phases tick_spec_def)
  have b: "gameState (updateGameState r1 r2 m) = gameState ?m5"
    by (simp add: updateGameState_phases autosave_spec_gameState)
  have c: "Character.experience (character (gameState (updateGameState r1 r2 m)))
       < experienceToNext (character (gameState (updateGameState r1 r2 m)))"
    unfolding b by (rule checkLevelUp_below)
  have d: "globalState (updateGameState r1 r2 m) =
          Some (json_of_GameState (gameState (updateGameState r1 r2 m)))"
    if "autoSave (settings (gameState m))"
    unfolding b using that
    by (simp add: updateGameState_phases autosave_spec_def saveGameState_def phases_keep_settings)
  have e: "globalState (updateGameState r1 r2 m) = globalState m"
    if "\<not> autoSave (settings (gameState m))"
    using that
    by (simp add: updateGameState_phases autosave_spec_def phases_keep_settings)
  show ?thesis using a b c d e by blast
qed

text \<open>
  A tick in which the kill gives the fifth missing experience: the state and the saved
  document both have level 2 and experience 0.
\<close>

lemma about_to_level_tick:
  "autoSave (settings (gameState about_to_level))
   \<and> Character.level (character (gameState about_to_level)) = 1
   \<and> Character.level (character (gameState (updateGameState 0.5 0 about_to_level))) = 2
   \<and> Character.experience (character (gameState (updateGameState 0.5 0 about_to_level))) = 0
   \<and> experienceToNext (character (gameState (updateGameState 0.5 0 about_to_level))) = 150
   \<and> totalBugsDefeated (statistics (gameState (updateGameState 0.5 0 about_to_level))) = 1
   \<and> (case globalState (updateGameState 0.5 0 about_to_level) of
         None \<Rightarrow> False
       | Some doc \<Rightarrow>
           (case get_prop ''character'' doc of
              None \<Rightarrow> False
            | Some c \<Rightarrow> get_prop ''level'' c = Some (JNum 2) \<and> get_prop ''experience'' c = Some (JNum 0)))"
  by code_simp

theorem tick_in_order_witness:
  "autoSave (settings (gameState about_to_level))
   \<and> Character.level (character (gameState about_to_level)) = 1
   \<and> Character.level (character (gameState (updateGameState 0.5 0 about_to_level))) = 2
   \<and> Character.experience (character (gameState (updateGameState 0.5 0 about_to_level))) = 0
   \<and> totalBugsDefeated (statistics (gameState (updateGameState 0.5 0 about_to_level))) = 1
   \<and> globalState (updateGameState 0.5 0 about_to_level) =
       Some (json_of_GameState (gameState (updateGameState 0.5 0 about_to_level)))
   \<and> (case globalState (updateGameState 0.5 0 about_to_level) of
         None \<Rightarrow> False
       | Some doc \<Rightarrow>
           (case get_prop ''character'' doc of
              None \<Rightarrow> False
            | Some c \<Rightarrow> get_prop ''level'' c = Some (JNum 2) \<and> get_prop ''experience'' c = Some (JNum 0)))"
proof -
  have "autoSave (settings (gameState about_to_level)) \<longrightarrow>
        globalState (updateGameState 0.5 0 about_to_level) =
          Some (json_of_GameState (gameState (updateGameState 0.5 0 about_to_level)))"
    using tick_in_order [of "0.5" 0 about_to_level] by blast
  then show ?thesis using about_to_level_tick by blast
qed

subsection \<open>The battle flag and the slot\<close>

text \<open>Every step that touches the flag or the slot leaves them in agreement.\<close>

lemma battle_consistent_defeatBug: "battle_consistent (defeatBug bug m)"
  by (simp add: battle_consistent_def defeatBug_def Let_def)

lemma battle_consistent_spawnRandomBug: "battle_consistent (spawnRandomBug r m)"
  by (simp add: battle_consistent_def spawnRandomBug_def Let_def)

lemma battle_consistent_resetGame: "battle_consistent (resetGame m)"
  by (simp add: battle_consistent_def resetGame_def saveGameState_def createDefaultGameState_def)

lemma battle_consistent_processBattle:
  "battle_consistent m \<Longrightarrow> battle_consistent (processBattle m)"
proof (cases "isInBattle (battle (gameState m))")
  case False
  assume "battle_consistent m"
  then show ?thesis using False by (simp add: processBattle_idle)
next
  case True
  assume c: "battle_consistent m"
  then obtain bug where bug: "currentBug (battle (gameState m)) = Some bug"
    using True by (auto simp add: battle_consistent_def)
  define d where "d = max 1 (Stats.algorithm (stats (gameState m)) - Bug.iteration bug)"
  show ?thesis
  proof (cases "health bug - d \<le> 0")
    case True
    show ?thesis
      unfolding battle_consistent_def
        processBattle_defeats [OF \<open>isInBattle (battle (gameState m))\<close> bug d_def True]
      by simp
  next
    case False
    then have pos: "0 < health bug - d" by simp
    show ?thesis
      unfolding battle_consistent_def
        processBattle_survives [OF \<open>isInBattle (battle (gameState m))\<close> bug d_def pos]
      using \<open>isInBattle (battle (gameState m))\<close> by simp
  qed
qed

lemma battle_consistent_updateGameState:
  assumes "battle_consistent m"
  shows "battle_consistent (updateGameState r1 r2 m)"
proof -
  have "battle_consistent (accrue_spec m)"
    using assms by (simp add: battle_consistent_def accrue_spec_fields)
  then have "battle_consistent (processBattle (accrue_spec m))"
    by (rule battle_consistent_processBattle)
  then have "battle_consistent (spawn_check_spec r1 r2 (processBattle (accrue_spec m)))"
    by (simp add: spawn_check_spec_def battle_consistent_spawnRandomBug)
  then show ?thesis
    by (simp add: battle_consistent_def after_battle_phase(4))
qed

lemma battle_consistent_perform:
  assumes "battle_consistent m"
  shows "battle_consistent (perform op m)"
proof (cases op)
  case (Tick r1 r2)
  then show ?thesis using assms by (simp add: battle_consistent_updateGameState)
next
  case (Buy k)
  have "battle (gameState (snd (buyUpgrade k m))) = battle (gameState m)"
    by (simp add: buyUpgrade_def Let_def)
  then show ?thesis using assms Buy by (simp add: battle_consistent_def)
next
  case (Interact ty r)
  have "battle (gameState (onEditorInteraction ty r m)) = battle (gameState m)"
    by (cases ty) (simp_all add: onEditorInteraction_def Let_def)
  then show ?thesis using assms Interact by (simp add: battle_consistent_def)
next
  case Reset
  then show ?thesis by (simp add: battle_consistent_resetGame)
qed

lemma battle_consistent_run:
  "battle_consistent m \<Longrightarrow> battle_consistent (run ops m)"
  by (induction ops arbitrary: m) (simp_all add: battle_consistent_perform)

lemma battle_consistent_default:
  "gameState m = createDefaultGameState \<Longrightarrow> battle_consistent m"
  by (simp add: battle_consistent_def createDefaultGameState_def)

text \<open>
  Claim C10. In every state reached from the default state by any sequence of the public
  operations (tick, purchase, editor interaction, reset) the battle flag is on if and
  only if the slot holds a bug. Each operation keeps the agreement, and the three places
  that write the flag or the slot (spawning, defeat, reset) write both.
\<close>

theorem battle_flag_consistent:
  "(gameState m = createDefaultGameState \<longrightarrow> battle_consistent (run ops m))
   \<and> (battle_consistent m \<longrightarrow> battle_consistent (perform op m))
   \<and> battle_consistent (spawnRandomBug r m)
   \<and> battle_consistent (defeatBug bug m)
   \<and> battle_consistent (resetGame m)"
  using battle_consistent_run [OF battle_consistent_default, of m ops]
    battle_consistent_perform [of m op]
    battle_consistent_spawnRandomBug [of r m] battle_consistent_defeatBug [of bug m]
    battle_consistent_resetGame [of m]
  by blast

text \<open>
  A run in which a bug is spawned and struck once: the flag is on and the slot holds the
  bug, with health 11 of 15.
\<close>

lemma spawn_then_fight_run:
  "isInBattle (battle (gameState (run spawn_then_fight initial)))
   \<and> map_option health (currentBug (battle (gameState (run spawn_then_fight initial)))) = Some 11
   \<and> map_option type (currentBug (battle (gameState (run spawn_then_fight initial)))) = Some (Some MemoryLeak)"
  by code_simp

theorem battle_flag_consistent_witness:
  "gameState initial = createDefaultGameState
   \<and> battle_consistent initial
   \<and> battle_consistent (run spawn_then_fight initial)
   \<and> battle_consistent (perform (Tick 0.05 0.3) initial)
   \<and> isInBattle (battle (gameState (run spawn_then_fight initial)))
   \<and> map_option health (currentBug (battle (gameState (run spawn_then_fight initial)))) = Some 11"
proof -
  have h: "gameState initial = createDefaultGameState" by (simp add: initial_def)
  have c: "battle_consistent initial"
    by (simp add: battle_consistent_def initial_def createDefaultGameState_def)
  show ?thesis
    using h c spawn_then_fight_run
      battle_flag_consistent [of initial spawn_then_fight "Tick 0.05 0.3"]
    by blast
qed

subsection \<open>One encounter at a time\<close>

lemma battle_does_not_read_accrual_battle:
  "battle (gameState (processBattle (accrue_spec m))) = battle (gameState (processBattle m))
   \<and> Character.level (character (gameState (processBattle (accrue_spec m)))) =
       Character.level (character (gameState m))"
proof (cases "isInBattle (battle (gameState m))")
  case False
  then show ?thesis by (simp add: processBattle_idle accrue_spec_fields)
next
  case True
  show ?thesis
  proof (cases "currentBug (battle (gameState m))")
    case None
    then show ?thesis by (simp add: processBattle_idle accrue_spec_fields)
  next
    case (Some bug)
    define d where "d = max 1 (Stats.algorithm (stats (gameState m)) - Bug.iteration bug)"
    have a: "isInBattle (battle (gameState (accrue_spec m)))"
      "currentBug (battle (gameState (accrue_spec m))) = Some bug"
      "d = max 1 (Stats.algorithm (stats (gameState (accrue_spec m))) - Bug.iteration bug)"
      using True Some d_def by (simp_all add: accrue_spec_fields)
    show ?thesis
    proof (cases "health bug - d \<le> 0")
      case True
      show ?thesis
        unfolding processBattle_defeats [OF a True]
          processBattle_defeats [OF \<open>isInBattle (battle (gameState m))\<close> Some d_def True]
        by (simp add: accrue_spec_fields)
    next
      case False
      then have pos: "0 < health bug - d" by simp
      show ?thesis
        unfolding processBattle_survives [OF a pos]
          processBattle_survives [OF \<open>isInBattle (battle (gameState m))\<close> Some d_def pos]
        by (simp add: accrue_spec_fields)
    qed
  qed
qed

lemma tick_battle_slot:
  assumes "battle_consistent m"
  shows "battle (gameState (updateGameState r1 r2 m)) =
           (if currentBug (battle (gameState (processBattle m))) = None \<and> r1 < 0.1
            then \<lparr>currentBug = currentBug (battle (gameState (spawnRandomBug r2 m))), isInBattle = True\<rparr>
            else battle (gameState (processBattle m)))"
proof -
  let ?mid = "processBattle (accrue_spec m)"
  have b: "battle (gameState ?mid) = battle (gameState (processBattle m))"
    and l: "Character.level (character (gameState ?mid)) = Character.level (character (gameState m))"
    using battle_does_not_read_accrual_battle [of m] by simp_all
  have "battle_consistent (processBattle m)"
    using assms by (rule battle_consistent_processBattle)
  then have flag: "isInBattle (battle (gameState (processBattle m))) =
      (currentBug (battle (gameState (processBattle m))) \<noteq> None)"
    by (simp add: battle_consistent_def)
  have "battle (gameState (spawnRandomBug r2 ?mid)) =
          \<lparr>currentBug = currentBug (battle (gameState (spawnRandomBug r2 m))), isInBattle = True\<rparr>"
    using l by (simp add: spawnRandomBug_def Let_def createBug_def)
  then have "battle (gameState (spawn_check_spec r1 r2 ?mid)) =
           (if currentBug (battle (gameState (processBattle m))) = None \<and> r1 < 0.1
            then \<lparr>currentBug = currentBug (battle (gameState (spawnRandomBug r2 m))), isInBattle = True\<rparr>
            else battle (gameState (processBattle m)))"
    by (simp add: spawn_check_spec_def flag b)
  then show ?thesis by (simp only: after_battle_phase(4))
qed

text \<open>
  Claim C6. The state has one slot for an encounter, so there is never more than one.
  In every state reached from the default state by ticks, the flag agrees with the slot,
  and in the next tick the spawn check writes the slot only when the battle step has left
  it empty: a bug that is in the slot after the battle step is the bug in the slot at the
  end of the tick, whatever the spawn draw, and an empty slot is filled with one new bug
  when the draw is below 0.1 and stays empty otherwise.
\<close>

theorem one_encounter_at_a_time:
  assumes "gameState m = createDefaultGameState"
  shows "battle_consistent (run (ticks rs) m)
    \<and> (currentBug (battle (gameState (processBattle (run (ticks rs) m)))) \<noteq> None \<longrightarrow>
         battle (gameState (updateGameState r1 r2 (run (ticks rs) m))) =
           battle (gameState (processBattle (run (ticks rs) m))))
    \<and> (currentBug (battle (gameState (processBattle (run (ticks rs) m)))) = None \<longrightarrow>
         battle (gameState (updateGameState r1 r2 (run (ticks rs) m))) =
           (if r1 < 0.1
            then \<lparr>currentBug = currentBug (battle (gameState (spawnRandomBug r2 (run (ticks rs) m)))),
                  isInBattle = True\<rparr>
            else \<lparr>currentBug = None, isInBattle = False\<rparr>))"
proof -
  let ?M = "run (ticks rs) m"
  have c: "battle_consistent ?M"
    using assms by (intro battle_consistent_run battle_consistent_default)
  have p: "battle_consistent (processBattle ?M)"
    using c by (rule battle_consistent_processBattle)
  have e: "battle (gameState (processBattle ?M)) = \<lparr>currentBug = None, isInBattle = False\<rparr>"
    if "currentBug (battle (gameState (processBattle ?M))) = None"
    using p that by (cases "battle (gameState (processBattle ?M))") (simp add: battle_consistent_def)
  show ?thesis
    using c e by (simp add: tick_battle_slot [OF c])
qed

text \<open>
  After a spawn and one blow the bug has health 11. In the next tick the draw 0.05 would
  pass the spawn test, but the slot is taken: the tick ends with the same bug, at
  health 7.
\<close>

lemma spawn_and_strike_run:
  "map_option health (currentBug (battle (gameState (run (ticks spawn_and_strike) initial)))) = Some 11
   \<and> map_option health (currentBug (battle (gameState (processBattle (run (ticks spawn_and_strike) initial))))) = Some 7
   \<and> map_option health
        (currentBug (battle (gameState (updateGameState 0.05 0.9 (run (ticks spawn_and_strike) initial))))) = Some 7
   \<and> map_option type
        (currentBug (battle (gameState (updateGameState 0.05 0.9 (run (ticks spawn_and_strike) initial))))) = Some (Some MemoryLeak)"
  by code_simp

theorem one_encounter_at_a_time_witness:
  "gameState initial = createDefaultGameState
   \<and> battle_consistent (run (ticks spawn_and_strike) initial)
   \<and> currentBug (battle (gameState (processBattle (run (ticks spawn_and_strike) initial)))) \<noteq> None
   \<and> battle (gameState (updateGameState 0.05 0.9 (run (ticks spawn_and_strike) initial))) =
       battle (gameState (processBattle (run (ticks spawn_and_strike) initial)))
   \<and> map_option health
        (currentBug (battle (gameState (updateGameState 0.05 0.9 (run (ticks spawn_and_strike) initial))))) = Some 7
   \<and> currentBug (battle (gameState (processBattle (run (ticks []) initial)))) = None
   \<and> battle (gameState (updateGameState 0.5 0 (run (ticks []) initial))) =
       \<lparr>currentBug = None, isInBattle = False\<rparr>"
proof -
  have h: "gameState initial = createDefaultGameState" by (simp add: initial_def)
  have n: "currentBug (battle (gameState (processBattle (run (ticks spawn_and_strike) initial)))) \<noteq> None"
    using spawn_and_strike_run by auto
  have i: "currentBug (battle (gameState (processBattle (run (ticks []) initial)))) = None"
    by (simp add: ticks_def processBattle_idle initial_def createDefaultGameState_def)
  show ?thesis
    using h n i spawn_and_strike_run
      one_encounter_at_a_time [OF h, of spawn_and_strike "0.05" "0.9"]
      one_encounter_at_a_time [OF h, of "[]" "0.5" 0]
    by simp
qed

subsection \<open>Migration of a saved state\<close>

text \<open>Entries of an object, and properties read after they are written or deleted.\<close>

lemma map_of_assign: "map_of (assign k v ps) k' = (if k' = k then Some v else map_of ps k')"
  by (induction ps) auto

lemma map_of_remove: "map_of (remove k ps) k' = (if k' = k then None else map_of ps k')"
  by (induction ps) auto

lemma assign_same: "map_of ps k = Some v \<Longrightarrow> assign k v ps = ps"
  by (induction ps) (auto split: if_splits)

lemma remove_absent: "map_of ps k = None \<Longrightarrow> remove k ps = ps"
  by (induction ps) (auto split: if_splits)

lemma assign_assign: "assign k v (assign k w ps) = assign k v ps"
  by (induction ps) auto

lemma assign_commute:
  "k \<noteq> k' \<Longrightarrow> map_of ps k \<noteq> None \<Longrightarrow> map_of ps k' \<noteq> None \<Longrightarrow>
     assign k v (assign k' v' ps) = assign k' v' (assign k v ps)"
  by (induction ps) (auto split: if_splits)

lemma get_prop_Some_obj: "get_prop k obj = Some v \<Longrightarrow> \<exists>kvs. obj = JObj kvs"
  by (cases obj) simp_all

lemma get_prop_set_prop:
  "get_prop k obj \<noteq> None \<Longrightarrow>
     get_prop k' (set_prop k v obj) = (if k' = k then Some v else get_prop k' obj)"
  by (cases obj) (simp_all add: map_of_assign)

lemma get_prop_rename_prop:
  "get_prop k (rename_prop old new obj) =
     (case get_prop old obj of
        None \<Rightarrow> get_prop k obj
      | Some v \<Rightarrow> if k = old then None else if k = new then Some v else get_prop k obj)"
  by (cases obj) (simp_all add: rename_prop_def map_of_assign map_of_remove split: option.splits)

lemma rename_prop_absent: "get_prop old obj = None \<Longrightarrow> rename_prop old new obj = obj"
  by (simp add: rename_prop_def)

lemma truthy_rename_prop: "truthy (rename_prop old new obj) = truthy obj"
  by (cases obj) (simp_all add: rename_prop_def split: option.splits)

lemma get_prop_rename_old: "get_prop old (rename_prop old new obj) = None"
  by (simp add: get_prop_rename_prop split: option.splits)

lemma get_prop_rename_keep:
  "k \<noteq> old \<Longrightarrow> k \<noteq> new \<Longrightarrow> get_prop k (rename_prop old new obj) = get_prop k obj"
  by (simp add: get_prop_rename_prop split: option.splits)

lemma get_prop_rename_new:
  "get_prop old obj = Some v \<Longrightarrow> old \<noteq> new \<Longrightarrow> get_prop new (rename_prop old new obj) = Some v"
  by (simp add: get_prop_rename_prop)

lemma deprecated_distinct:
  "''computingPower'' \<noteq> ''attack''" "''computingPower'' \<noteq> ''defense''"
  "''computingPower'' \<noteq> ''handSpeed''" "''computingPower'' \<noteq> ''algorithm''"
  "''computingPower'' \<noteq> ''iteration''"
  "''attack'' \<noteq> ''computingPower''" "''attack'' \<noteq> ''defense''"
  "''attack'' \<noteq> ''handSpeed''" "''attack'' \<noteq> ''algorithm''" "''attack'' \<noteq> ''iteration''"
  "''defense'' \<noteq> ''computingPower''" "''defense'' \<noteq> ''attack''"
  "''defense'' \<noteq> ''handSpeed''" "''defense'' \<noteq> ''algorithm''" "''defense'' \<noteq> ''iteration''"
  "''handSpeed'' \<noteq> ''attack''" "''handSpeed'' \<noteq> ''defense''"
  "''handSpeed'' \<noteq> ''algorithm''" "''handSpeed'' \<noteq> ''iteration''"
  "''algorithm'' \<noteq> ''defense''" "''algorithm'' \<noteq> ''iteration''"
  by simp_all

lemma rename_stat_keys_gone:
  "get_prop ''computingPower'' (rename_stat_keys obj) = None"
  "get_prop ''attack'' (rename_stat_keys obj) = None"
  "get_prop ''defense'' (rename_stat_keys obj) = None"
  unfolding rename_stat_keys_def
  by (simp_all only: get_prop_rename_old get_prop_rename_keep deprecated_distinct not_False_eq_True)

lemma rename_bug_keys_gone:
  "get_prop ''attack'' (rename_bug_keys obj) = None"
  "get_prop ''defense'' (rename_bug_keys obj) = None"
  unfolding rename_bug_keys_def
  by (simp_all only: get_prop_rename_old get_prop_rename_keep deprecated_distinct not_False_eq_True)

lemma rename_stat_keys_fixed:
  assumes "get_prop ''computingPower'' obj = None" "get_prop ''attack'' obj = None"
    "get_prop ''defense'' obj = None"
  shows "rename_stat_keys obj = obj"
  unfolding rename_stat_keys_def using assms by (simp only: rename_prop_absent)

lemma rename_bug_keys_fixed:
  assumes "get_prop ''attack'' obj = None" "get_prop ''defense'' obj = None"
  shows "rename_bug_keys obj = obj"
  unfolding rename_bug_keys_def using assms by (simp only: rename_prop_absent)

lemma rename_stat_keys_idem: "rename_stat_keys (rename_stat_keys obj) = rename_stat_keys obj"
  by (rule rename_stat_keys_fixed) (rule rename_stat_keys_gone)+

lemma rename_bug_keys_idem: "rename_bug_keys (rename_bug_keys obj) = rename_bug_keys obj"
  by (rule rename_bug_keys_fixed) (rule rename_bug_keys_gone)+

lemma rename_stat_keys_moves:
  assumes "(old, new) \<in> set stat_renamings" "get_prop old obj = Some v"
  shows "get_prop new (rename_stat_keys obj) = Some v \<and> get_prop old (rename_stat_keys obj) = None"
proof -
  consider "old = ''computingPower''" "new = ''handSpeed''"
    | "old = ''attack''" "new = ''algorithm''"
    | "old = ''defense''" "new = ''iteration''"
    using assms(1) unfolding stat_renamings_def by auto
  then show ?thesis
  proof cases
    case 1
    have "get_prop ''handSpeed'' (rename_prop ''computingPower'' ''handSpeed'' obj) = Some v"
      using assms(2) 1 by (simp only: get_prop_rename_new deprecated_distinct not_False_eq_True)
    then have "get_prop ''handSpeed'' (rename_stat_keys obj) = Some v"
      unfolding rename_stat_keys_def
      by (simp only: get_prop_rename_keep deprecated_distinct not_False_eq_True)
    then show ?thesis using 1 by (simp only: rename_stat_keys_gone simp_thms)
  next
    case 2
    have "get_prop ''attack'' (rename_prop ''computingPower'' ''handSpeed'' obj) = Some v"
      using assms(2) 2 by (simp only: get_prop_rename_keep deprecated_distinct not_False_eq_True)
    then have "get_prop ''algorithm''
        (rename_prop ''attack'' ''algorithm'' (rename_prop ''computingPower'' ''handSpeed'' obj)) = Some v"
      by (simp only: get_prop_rename_new deprecated_distinct not_False_eq_True)
    then have "get_prop ''algorithm'' (rename_stat_keys obj) = Some v"
      unfolding rename_stat_keys_def
      by (simp only: get_prop_rename_keep deprecated_distinct not_False_eq_True)
    then show ?thesis using 2 by (simp only: rename_stat_keys_gone simp_thms)
  next
    case 3
    have "get_prop ''defense''
        (rename_prop ''attack'' ''algorithm'' (rename_prop ''computingPower'' ''handSpeed'' obj)) = Some v"
      using assms(2) 3 by (simp only: get_prop_rename_keep deprecated_distinct not_False_eq_True)
    then have "get_prop ''iteration'' (rename_stat_keys obj) = Some v"
      unfolding rename_stat_keys_def
      by (simp only: get_prop_rename_new deprecated_distinct not_False_eq_True)
    then show ?thesis using 3 by (simp only: rename_stat_keys_gone simp_thms)
  qed
qed

lemma rename_bug_keys_moves:
  assumes "(old, new) \<in> set bug_renamings" "get_prop old obj = Some v"
  shows "get_prop new (rename_bug_keys obj) = Some v \<and> get_prop old (rename_bug_keys obj) = None"
proof -
  consider "old = ''attack''" "new = ''algorithm''" | "old = ''defense''" "new = ''iteration''"
    using assms(1) unfolding bug_renamings_def by auto
  then show ?thesis
  proof cases
    case 1
    have "get_prop ''algorithm'' (rename_prop ''attack'' ''algorithm'' obj) = Some v"
      using assms(2) 1 by (simp only: get_prop_rename_new deprecated_distinct not_False_eq_True)
    then have "get_prop ''algorithm'' (rename_bug_keys obj) = Some v"
      unfolding rename_bug_keys_def
      by (simp only: get_prop_rename_keep deprecated_distinct not_False_eq_True)
    then show ?thesis using 1 by (simp only: rename_bug_keys_gone simp_thms)
  next
    case 2
    have "get_prop ''defense'' (rename_prop ''attack'' ''algorithm'' obj) = Some v"
      using assms(2) 2 by (simp only: get_prop_rename_keep deprecated_distinct not_False_eq_True)
    then have "get_prop ''iteration'' (rename_bug_keys obj) = Some v"
      unfolding rename_bug_keys_def
      by (simp only: get_prop_rename_new deprecated_distinct not_False_eq_True)
    then show ?thesis using 2 by (simp only: rename_bug_keys_gone simp_thms)
  qed
qed

lemma rename_on_falsy:
  "\<not> truthy v \<Longrightarrow> rename_stat_keys v = v \<and> rename_bug_keys v = v"
  by (cases v) (simp_all add: rename_stat_keys_def rename_bug_keys_def rename_prop_def)

lemma set_prop_same: "get_prop k obj = Some v \<Longrightarrow> set_prop k v obj = obj"
  by (cases obj) (simp_all add: assign_same)

lemma migrate_stats_modify: "migrate_stats s = modify_key ''stats'' rename_stat_keys s"
  by (auto simp add: migrate_stats_def modify_key_def rename_on_falsy set_prop_same split: option.splits)

lemma migrate_upgradeCosts_modify:
  "migrate_upgradeCosts s = modify_key ''upgradeCosts'' rename_stat_keys s"
  by (auto simp add: migrate_upgradeCosts_def modify_key_def rename_on_falsy set_prop_same split: option.splits)

lemma migrate_currentBug_modify:
  "migrate_currentBug s = modify_key ''battle'' (modify_key ''currentBug'' rename_bug_keys) s"
  by (auto simp add: migrate_currentBug_def modify_key_def rename_on_falsy set_prop_same split: option.splits)

lemma get_prop_modify_key:
  "get_prop k' (modify_key k f obj) = (if k' = k then map_option f (get_prop k obj) else get_prop k' obj)"
  by (auto simp add: modify_key_def get_prop_set_prop split: option.splits)

lemma modify_key_modify_key:
  "modify_key k f (modify_key k g obj) = modify_key k (f \<circ> g) obj"
  by (cases obj) (auto simp add: modify_key_def map_of_assign assign_assign split: option.splits)

lemma modify_key_commute:
  "k \<noteq> k' \<Longrightarrow> modify_key k f (modify_key k' g obj) = modify_key k' g (modify_key k f obj)"
  by (cases obj) (auto simp add: modify_key_def map_of_assign assign_commute split: option.splits)

lemma modify_key_fixed:
  "(\<And>v. get_prop k obj = Some v \<Longrightarrow> f v = v) \<Longrightarrow> modify_key k f obj = obj"
  by (auto simp add: modify_key_def set_prop_same split: option.splits)

lemma modify_key_idem:
  "(\<And>v. f (f v) = f v) \<Longrightarrow> modify_key k f (modify_key k f obj) = modify_key k f obj"
  by (rule modify_key_fixed) (auto simp add: get_prop_modify_key)

lemma truthy_modify_key: "truthy (modify_key k f obj) = truthy obj"
  by (cases obj) (simp_all add: modify_key_def split: option.splits)

lemmas migrate_modify = migrate_stats_modify migrate_upgradeCosts_modify migrate_currentBug_modify

lemma group_keys_distinct:
  "''stats'' \<noteq> ''upgradeCosts''" "''stats'' \<noteq> ''battle''" "''upgradeCosts'' \<noteq> ''battle''"
  "''upgradeCosts'' \<noteq> ''stats''" "''battle'' \<noteq> ''stats''" "''battle'' \<noteq> ''upgradeCosts''"
  by simp_all

lemma loadGameState_truthy:
  "truthy s \<Longrightarrow>
     loadGameState (Some s) = migrate_currentBug (migrate_upgradeCosts (migrate_stats s))"
  by (simp add: loadGameState_def)

lemma truthy_migrated:
  "truthy (migrate_currentBug (migrate_upgradeCosts (migrate_stats s))) = truthy s"
  by (simp only: migrate_modify truthy_modify_key)

lemma migrated_groups:
  "stats_group (migrate_currentBug (migrate_upgradeCosts (migrate_stats s))) =
     map_option rename_stat_keys (stats_group s)"
  "upgradeCosts_group (migrate_currentBug (migrate_upgradeCosts (migrate_stats s))) =
     map_option rename_stat_keys (upgradeCosts_group s)"
  "currentBug_group (migrate_currentBug (migrate_upgradeCosts (migrate_stats s))) =
     map_option rename_bug_keys (currentBug_group s)"
proof -
  show "stats_group (migrate_currentBug (migrate_upgradeCosts (migrate_stats s))) =
     map_option rename_stat_keys (stats_group s)"
    unfolding stats_group_def migrate_modify
    by (simp only: get_prop_modify_key group_keys_distinct if_False if_True simp_thms)
  show "upgradeCosts_group (migrate_currentBug (migrate_upgradeCosts (migrate_stats s))) =
     map_option rename_stat_keys (upgradeCosts_group s)"
    unfolding upgradeCosts_group_def migrate_modify
    by (simp only: get_prop_modify_key group_keys_distinct if_False if_True simp_thms)
  have "get_prop ''battle'' (migrate_currentBug (migrate_upgradeCosts (migrate_stats s))) =
          map_option (modify_key ''currentBug'' rename_bug_keys) (get_prop ''battle'' s)"
    unfolding migrate_modify
    by (simp only: get_prop_modify_key group_keys_distinct if_False if_True simp_thms)
  then show "currentBug_group (migrate_currentBug (migrate_upgradeCosts (migrate_stats s))) =
     map_option rename_bug_keys (currentBug_group s)"
    unfolding currentBug_group_def
    by (cases "get_prop ''battle'' s") (simp_all add: get_prop_modify_key)
qed

lemma no_deprecated_after_rename:
  "deprecated_in stat_renamings (map_option rename_stat_keys grp) = []"
  "deprecated_in bug_renamings (map_option rename_bug_keys grp) = []"
  by (cases grp; simp add: deprecated_in_def stat_renamings_def bug_renamings_def
        rename_stat_keys_gone rename_bug_keys_gone)+

lemma migrated_clean:
  "deprecated_keys (migrate_currentBug (migrate_upgradeCosts (migrate_stats s))) = []"
  unfolding deprecated_keys_def migrated_groups
  by (simp only: no_deprecated_after_rename append_Nil)

lemma clean_group_fixed:
  "deprecated_in stat_renamings (Some obj) = [] \<Longrightarrow> rename_stat_keys obj = obj"
  "deprecated_in bug_renamings (Some obj) = [] \<Longrightarrow> rename_bug_keys obj = obj"
proof -
  assume "deprecated_in stat_renamings (Some obj) = []"
  then have "get_prop ''computingPower'' obj = None" "get_prop ''attack'' obj = None"
    "get_prop ''defense'' obj = None"
    by (simp_all add: deprecated_in_def stat_renamings_def split: if_splits)
  then show "rename_stat_keys obj = obj" by (rule rename_stat_keys_fixed)
next
  assume "deprecated_in bug_renamings (Some obj) = []"
  then have "get_prop ''attack'' obj = None" "get_prop ''defense'' obj = None"
    by (simp_all add: deprecated_in_def bug_renamings_def split: if_splits)
  then show "rename_bug_keys obj = obj" by (rule rename_bug_keys_fixed)
qed

lemma migrated_noop:
  assumes "deprecated_keys s = []"
  shows "migrate_currentBug (migrate_upgradeCosts (migrate_stats s)) = s"
proof -
  have a: "deprecated_in stat_renamings (stats_group s) = []"
    and b: "deprecated_in stat_renamings (upgradeCosts_group s) = []"
    and c: "deprecated_in bug_renamings (currentBug_group s) = []"
    using assms by (simp_all add: deprecated_keys_def)
  have 1: "migrate_stats s = s"
    unfolding migrate_modify
    by (rule modify_key_fixed) (use a in \<open>simp add: stats_group_def clean_group_fixed\<close>)
  have 2: "migrate_upgradeCosts s = s"
    unfolding migrate_modify
    by (rule modify_key_fixed) (use b in \<open>simp add: upgradeCosts_group_def clean_group_fixed\<close>)
  have 3: "migrate_currentBug s = s"
    unfolding migrate_modify
  proof (rule modify_key_fixed)
    fix bt assume bt: "get_prop ''battle'' s = Some bt"
    show "modify_key ''currentBug'' rename_bug_keys bt = bt"
      by (rule modify_key_fixed) (use c bt in \<open>simp add: currentBug_group_def clean_group_fixed\<close>)
  qed
  show ?thesis by (simp only: 1 2 3)
qed

lemma migrated_idem:
  "migrate_currentBug (migrate_upgradeCosts (migrate_stats
     (migrate_currentBug (migrate_upgradeCosts (migrate_stats s))))) =
   migrate_currentBug (migrate_upgradeCosts (migrate_stats s))"
  by (rule migrated_noop) (rule migrated_clean)

lemma migrations_commute:
  "migrate_stats (migrate_upgradeCosts s) = migrate_upgradeCosts (migrate_stats s)"
  "migrate_stats (migrate_currentBug s) = migrate_currentBug (migrate_stats s)"
  "migrate_upgradeCosts (migrate_currentBug s) = migrate_currentBug (migrate_upgradeCosts s)"
  unfolding migrate_modify
  by (rule modify_key_commute, simp)+

lemma default_document:
  "truthy (json_of_GameState createDefaultGameState)
   \<and> deprecated_keys (json_of_GameState createDefaultGameState) = []"
  by (simp add: json_of_GameState_def deprecated_keys_def stats_group_def upgradeCosts_group_def
      currentBug_group_def json_of_Stats_def json_of_UpgradeCosts_def json_of_Battle_def
      deprecated_in_def stat_renamings_def bug_renamings_def createDefaultGameState_def)

lemma loadGameState_default:
  "stored = None \<or> (\<exists>s. stored = Some s \<and> \<not> truthy s) \<Longrightarrow>
     loadGameState stored = json_of_GameState createDefaultGameState"
  by (cases stored) (simp_all add: loadGameState_def)

lemma loadGameState_clean: "deprecated_keys (loadGameState stored) = []"
proof (cases "stored = None \<or> (\<exists>s. stored = Some s \<and> \<not> truthy s)")
  case True
  then show ?thesis by (simp only: loadGameState_default default_document)
next
  case False
  then obtain s where "stored = Some s" "truthy s" by (cases stored) simp_all
  then show ?thesis by (simp only: loadGameState_truthy migrated_clean)
qed

lemma loadGameState_truthy_result: "truthy (loadGameState stored)"
proof (cases "stored = None \<or> (\<exists>s. stored = Some s \<and> \<not> truthy s)")
  case True
  then show ?thesis by (simp only: loadGameState_default default_document)
next
  case False
  then obtain s where "stored = Some s" "truthy s" by (cases stored) simp_all
  then show ?thesis by (simp only: loadGameState_truthy truthy_migrated)
qed

lemma loadGameState_noop:
  "truthy s \<Longrightarrow> deprecated_keys s = [] \<Longrightarrow> loadGameState (Some s) = s"
  by (simp only: loadGameState_truthy migrated_noop)

lemma loadGameState_idem: "loadGameState (Some (loadGameState stored)) = loadGameState stored"
  by (rule loadGameState_noop) (rule loadGameState_truthy_result, rule loadGameState_clean)

lemma rename_prop_commute_lookup:
  assumes "a \<noteq> c" "a \<noteq> d" "b \<noteq> c" "b \<noteq> d"
  shows "get_prop k (rename_prop a b (rename_prop c d obj)) =
         get_prop k (rename_prop c d (rename_prop a b obj))"
proof (cases "get_prop a obj")
  case None
  then have "get_prop a (rename_prop c d obj) = None"
    using assms by (simp add: get_prop_rename_prop split: option.splits)
  then show ?thesis using None by (simp add: rename_prop_absent)
next
  case (Some v)
  note a = Some
  show ?thesis
  proof (cases "get_prop c obj")
    case None
    then have "get_prop c (rename_prop a b obj) = None"
      using assms by (simp add: get_prop_rename_prop split: option.splits)
    then show ?thesis using None by (simp add: rename_prop_absent)
  next
    case (Some w)
    have 1: "get_prop a (rename_prop c d obj) = Some v"
      using a Some assms by (simp add: get_prop_rename_prop)
    have 2: "get_prop c (rename_prop a b obj) = Some w"
      using a Some assms by (simp add: get_prop_rename_prop)
    show ?thesis
      using assms
      by (simp add: get_prop_rename_prop [of k a b "rename_prop c d obj"]
          get_prop_rename_prop [of k c d "rename_prop a b obj"] 1 2)
        (simp add: get_prop_rename_prop a Some)
  qed
qed

lemma stat_renamings_commute_lookup:
  assumes "(a, b) \<in> set stat_renamings" "(c, d) \<in> set stat_renamings"
  shows "get_prop k (rename_prop a b (rename_prop c d obj)) =
         get_prop k (rename_prop c d (rename_prop a b obj))"
proof (cases "a = c")
  case True
  then have "b = d" using assms unfolding stat_renamings_def by auto
  then show ?thesis using True by simp
next
  case False
  then have "a \<noteq> d" "b \<noteq> c" "b \<noteq> d"
    using assms unfolding stat_renamings_def by auto
  then show ?thesis using False by (intro rename_prop_commute_lookup)
qed

lemma group_is_object: "get_prop k blob = Some v \<Longrightarrow> truthy blob"
  by (cases blob) simp_all

lemma loaded_groups:
  "stats_group blob = Some st \<Longrightarrow>
     stats_group (loadGameState (Some blob)) = Some (rename_stat_keys st)"
  "upgradeCosts_group blob = Some uc \<Longrightarrow>
     upgradeCosts_group (loadGameState (Some blob)) = Some (rename_stat_keys uc)"
  "currentBug_group blob = Some bug \<Longrightarrow>
     currentBug_group (loadGameState (Some blob)) = Some (rename_bug_keys bug)"
proof -
  assume g: "stats_group blob = Some st"
  then have "truthy blob" unfolding stats_group_def by (rule group_is_object)
  then show "stats_group (loadGameState (Some blob)) = Some (rename_stat_keys st)"
    using g by (simp only: loadGameState_truthy migrated_groups option.map)
next
  assume g: "upgradeCosts_group blob = Some uc"
  then have "truthy blob" unfolding upgradeCosts_group_def by (rule group_is_object)
  then show "upgradeCosts_group (loadGameState (Some blob)) = Some (rename_stat_keys uc)"
    using g by (simp only: loadGameState_truthy migrated_groups option.map)
next
  assume g: "currentBug_group blob = Some bug"
  then obtain bt where "get_prop ''battle'' blob = Some bt"
    unfolding currentBug_group_def by (cases "get_prop ''battle'' blob") simp_all
  then have "truthy blob" by (rule group_is_object)
  then show "currentBug_group (loadGameState (Some blob)) = Some (rename_bug_keys bug)"
    using g by (simp only: loadGameState_truthy migrated_groups option.map)
qed

lemma loadGameState_orders:
  assumes "truthy blob"
  shows "loadGameState (Some blob) = migrate_currentBug (migrate_stats (migrate_upgradeCosts blob))"
    "loadGameState (Some blob) = migrate_upgradeCosts (migrate_currentBug (migrate_stats blob))"
    "loadGameState (Some blob) = migrate_upgradeCosts (migrate_stats (migrate_currentBug blob))"
    "loadGameState (Some blob) = migrate_stats (migrate_currentBug (migrate_upgradeCosts blob))"
    "loadGameState (Some blob) = migrate_stats (migrate_upgradeCosts (migrate_currentBug blob))"
  by (simp_all only: loadGameState_truthy [OF assms] migrations_commute)

text \<open>
  Claim C7. The migration that \<^verbatim>\<open>loadGameState\<close> applies is idempotent: loading
  what a load returned gives it back unchanged. What a load returns has no deprecated key
  in any of the three places (stats, upgrade costs, bug in the slot), whatever subset of
  them the blob had. A blob without deprecated keys is returned as it is. Each deprecated
  key present in one of the three places is gone after the load and its value is under
  the current key. The three blocks of the loader can run in any of the six orders with
  the same result, and within a place two renamings give the same properties in either
  order.
\<close>

theorem migration_idempotent:
  "loadGameState (Some (loadGameState stored)) = loadGameState stored
   \<and> deprecated_keys (loadGameState stored) = []
   \<and> (truthy blob \<and> deprecated_keys blob = [] \<longrightarrow> loadGameState (Some blob) = blob)
   \<and> ((old, new) \<in> set stat_renamings \<and> stats_group blob = Some st \<and> get_prop old st = Some v \<longrightarrow>
        (\<exists>st'. stats_group (loadGameState (Some blob)) = Some st'
              \<and> get_prop new st' = Some v \<and> get_prop old st' = None))
   \<and> ((old, new) \<in> set stat_renamings \<and> upgradeCosts_group blob = Some st \<and> get_prop old st = Some v \<longrightarrow>
        (\<exists>st'. upgradeCosts_group (loadGameState (Some blob)) = Some st'
              \<and> get_prop new st' = Some v \<and> get_prop old st' = None))
   \<and> ((old, new) \<in> set bug_renamings \<and> currentBug_group blob = Some st \<and> get_prop old st = Some v \<longrightarrow>
        (\<exists>st'. currentBug_group (loadGameState (Some blob)) = Some st'
              \<and> get_prop new st' = Some v \<and> get_prop old st' = None))
   \<and> (truthy blob \<longrightarrow>
        loadGameState (Some blob) = migrate_currentBug (migrate_stats (migrate_upgradeCosts blob))
      \<and> loadGameState (Some blob) = migrate_upgradeCosts (migrate_currentBug (migrate_stats blob))
      \<and> loadGameState (Some blob) = migrate_upgradeCosts (migrate_stats (migrate_currentBug blob))
      \<and> loadGameState (Some blob) = migrate_stats (migrate_currentBug (migrate_upgradeCosts blob))
      \<and> loadGameState (Some blob) = migrate_stats (migrate_upgradeCosts (migrate_currentBug blob)))
   \<and> ((a, b) \<in> set stat_renamings \<and> (c, d) \<in> set stat_renamings \<longrightarrow>
        get_prop k (rename_prop a b (rename_prop c d obj)) =
        get_prop k (rename_prop c d (rename_prop a b obj)))"
proof (intro conjI impI)
  show "loadGameState (Some (loadGameState stored)) = loadGameState stored"
    by (rule loadGameState_idem)
  show "deprecated_keys (loadGameState stored) = []"
    by (rule loadGameState_clean)
next
  assume "truthy blob \<and> deprecated_keys blob = []"
  then show "loadGameState (Some blob) = blob"
    by (simp only: loadGameState_noop)
next
  assume h: "(old, new) \<in> set stat_renamings \<and> stats_group blob = Some st \<and> get_prop old st = Some v"
  then have "stats_group (loadGameState (Some blob)) = Some (rename_stat_keys st)"
    by (simp only: loaded_groups)
  then show "\<exists>st'. stats_group (loadGameState (Some blob)) = Some st'
              \<and> get_prop new st' = Some v \<and> get_prop old st' = None"
    using h rename_stat_keys_moves [of old new st v] by blast
next
  assume h: "(old, new) \<in> set stat_renamings \<and> upgradeCosts_group blob = Some st \<and> get_prop old st = Some v"
  then have "upgradeCosts_group (loadGameState (Some blob)) = Some (rename_stat_keys st)"
    by (simp only: loaded_groups)
  then show "\<exists>st'. upgradeCosts_group (loadGameState (Some blob)) = Some st'
              \<and> get_prop new st' = Some v \<and> get_prop old st' = None"
    using h rename_stat_keys_moves [of old new st v] by blast
next
  assume h: "(old, new) \<in> set bug_renamings \<and> currentBug_group blob = Some st \<and> get_prop old st = Some v"
  then have "currentBug_group (loadGameState (Some blob)) = Some (rename_bug_keys st)"
    by (simp only: loaded_groups)
  then show "\<exists>st'. currentBug_group (loadGameState (Some blob)) = Some st'
              \<and> get_prop new st' = Some v \<and> get_prop old st' = None"
    using h rename_bug_keys_moves [of old new st v] by blast
next
  assume t: "truthy blob"
  show "loadGameState (Some blob) = migrate_currentBug (migrate_stats (migrate_upgradeCosts blob))"
    by (rule loadGameState_orders(1) [OF t])
  show "loadGameState (Some blob) = migrate_upgradeCosts (migrate_currentBug (migrate_stats blob))"
    by (rule loadGameState_orders(2) [OF t])
  show "loadGameState (Some blob) = migrate_upgradeCosts (migrate_stats (migrate_currentBug blob))"
    by (rule loadGameState_orders(3) [OF t])
  show "loadGameState (Some blob) = migrate_stats (migrate_currentBug (migrate_upgradeCosts blob))"
    by (rule loadGameState_orders(4) [OF t])
  show "loadGameState (Some blob) = migrate_stats (migrate_upgradeCosts (migrate_currentBug blob))"
    by (rule loadGameState_orders(5) [OF t])
next
  assume "(a, b) \<in> set stat_renamings \<and> (c, d) \<in> set stat_renamings"
  then show "get_prop k (rename_prop a b (rename_prop c d obj)) =
        get_prop k (rename_prop c d (rename_prop a b obj))"
    by (simp only: stat_renamings_commute_lookup)
qed

text \<open>
  The old save has eight deprecated keys; the load returns the save in the current
  format, which has none and which a second load leaves as it is.
\<close>

lemma old_save_loaded: "loadGameState (Some old_save) = migrated_save"
  by (simp add: loadGameState_def old_save_def migrated_save_def migrate_stats_def
      migrate_upgradeCosts_def migrate_currentBug_def rename_stat_keys_def rename_bug_keys_def
      rename_prop_def)

lemma old_save_keys:
  "deprecated_keys old_save =
       [''computingPower'', ''attack'', ''defense'', ''computingPower'', ''attack'', ''defense'',
        ''attack'', ''defense'']"
  by (simp add: old_save_def deprecated_keys_def stats_group_def upgradeCosts_group_def
      currentBug_group_def deprecated_in_def stat_renamings_def bug_renamings_def)

lemma old_save_groups:
  "stats_group old_save =
     Some (JObj [(''computingPower'', JNum 2), (''attack'', JNum 7), (''defense'', JNum 4)])"
  "currentBug_group old_save =
     Some (JObj [(''name'', JStr ''bug''), (''health'', JNum 9), (''attack'', JNum 7), (''defense'', JNum 1)])"
  "stats_group migrated_save =
     Some (JObj [(''handSpeed'', JNum 2), (''algorithm'', JNum 7), (''iteration'', JNum 4)])"
  by (simp_all add: old_save_def migrated_save_def stats_group_def currentBug_group_def)

lemma migrated_save_clean: "truthy migrated_save \<and> deprecated_keys migrated_save = []"
  by (simp add: migrated_save_def deprecated_keys_def stats_group_def upgradeCosts_group_def
      currentBug_group_def deprecated_in_def stat_renamings_def bug_renamings_def)

theorem migration_idempotent_witness:
  "deprecated_keys old_save =
     [''computingPower'', ''attack'', ''defense'', ''computingPower'', ''attack'', ''defense'',
      ''attack'', ''defense'']
   \<and> loadGameState (Some old_save) = migrated_save
   \<and> truthy migrated_save
   \<and> deprecated_keys migrated_save = []
   \<and> loadGameState (Some migrated_save) = migrated_save
   \<and> (''attack'', ''algorithm'') \<in> set stat_renamings
   \<and> stats_group old_save =
       Some (JObj [(''computingPower'', JNum 2), (''attack'', JNum 7), (''defense'', JNum 4)])
   \<and> stats_group (loadGameState (Some old_save)) =
       Some (JObj [(''handSpeed'', JNum 2), (''algorithm'', JNum 7), (''iteration'', JNum 4)])"
proof -
  have "loadGameState (Some migrated_save) = migrated_save"
    using migrated_save_clean migration_idempotent [of "Some old_save" migrated_save]
    by blast
  moreover have "(''attack'', ''algorithm'') \<in> set stat_renamings"
    by (simp add: stat_renamings_def)
  ultimately show ?thesis
    using old_save_keys old_save_loaded old_save_groups migrated_save_clean by simp
qed

end
